theory Spec2Isabelle
  imports Complex_Main
begin

section \<open>JavaScript values\<close>

text \<open>
  The validators are TypeScript functions, but several of them guard against
  arguments of the wrong runtime type (\<^verbatim>\<open>typeof str !== 'string'\<close>, \<^verbatim>\<open>!address\<close>), so
  their arguments are modelled as JavaScript values, not as the declared parameter
  types. The universe is the data a caller can build from JSON plus \<^verbatim>\<open>undefined\<close>:
  the primitives, plain objects and arrays; no property of an object holds a function.

  Strings are lists of 8-bit characters; the model is meant for ASCII text, where
  \<^verbatim>\<open>toUpperCase\<close> changes the letters a-z only.

  A number is modelled by the decimal form that \<^verbatim>\<open>Number::toString\<close> of ECMAScript
  gives it: \<open>Dec neg s n\<close> is the number with sign \<open>neg\<close> whose shortest decimal
  digits are those of \<open>s\<close> (no trailing zero), the decimal point standing after
  the \<open>n\<close>-th digit, that is the value \<open>s * 10 ^ (n - k)\<close> for \<open>k\<close> digits of \<open>s\<close>.
  Distinct numbers have distinct forms, so \<^verbatim>\<open>===\<close> on numbers compares the forms
  (with both zeros equal and NaN equal to nothing). The binary representation of a
  number is not modelled: which decimal form a given double has is taken as given.
\<close>

datatype jsnum = NaN | Inf bool | Zero bool | Dec bool nat int

datatype jsval =
    Undefined
  | Null
  | Bool bool
  | Num jsnum
  | Str string
  | Obj "(string \<times> jsval) list"
  | Arr "jsval list"

text \<open>What a JavaScript function can throw.\<close>

datatype js_error =
    TypeError
  | Error string
  | Thrown string

fun typeof :: "jsval \<Rightarrow> string" where
  "typeof Undefined = ''undefined''"
| "typeof Null = ''object''"
| "typeof (Bool b) = ''boolean''"
| "typeof (Num n) = ''number''"
| "typeof (Str s) = ''string''"
| "typeof (Obj ps) = ''object''"
| "typeof (Arr xs) = ''object''"

text \<open>ToBoolean: the falsy values are undefined, null, false, the zeros, NaN and \<^verbatim>\<open>''\<close>.\<close>

fun truthy :: "jsval \<Rightarrow> bool" where
  "truthy Undefined = False"
| "truthy Null = False"
| "truthy (Bool b) = b"
| "truthy (Num NaN) = False"
| "truthy (Num (Zero neg)) = False"
| "truthy (Num (Inf neg)) = True"
| "truthy (Num (Dec neg s n)) = True"
| "truthy (Str s) = (s \<noteq> [])"
| "truthy (Obj ps) = True"
| "truthy (Arr xs) = True"

section \<open>Strings and the regular expressions of the validators\<close>

definition lower_letters :: string where
  "lower_letters = ''abcdefghijklmnopqrstuvwxyz''"

definition upper_letters :: string where
  "upper_letters = ''ABCDEFGHIJKLMNOPQRSTUVWXYZ''"

definition toUpperCase_char :: "char \<Rightarrow> char" where
  "toUpperCase_char c =
     (case map_of (zip lower_letters upper_letters) c of Some u \<Rightarrow> u | None \<Rightarrow> c)"

definition toUpperCase :: "string \<Rightarrow> string" where
  "toUpperCase s = map toUpperCase_char s"

text \<open>The character classes \<^verbatim>\<open>[0-9A-F]\<close>, \<^verbatim>\<open>[0-9a-f]\<close> and \<^verbatim>\<open>[0-9a-f]\<close> under the flag i.\<close>

definition upper_hex :: "char \<Rightarrow> bool" where
  "upper_hex c = (c \<in> set ''0123456789ABCDEF'')"

definition lower_hex :: "char \<Rightarrow> bool" where
  "lower_hex c = (c \<in> set ''0123456789abcdef'')"

definition any_hex :: "char \<Rightarrow> bool" where
  "any_hex c = (c \<in> set ''0123456789abcdefABCDEF'')"

text \<open>\<^verbatim>\<open>/^[0-9A-F]*$/g\<close> tested on a fresh regular expression.\<close>

definition re_upper_hex_star :: "string \<Rightarrow> bool" where
  "re_upper_hex_star s = list_all upper_hex s"

text \<open>
  \<^verbatim>\<open>/^(0x)?[0-9a-f]{40}$/\<close> for a class of digits \<open>cls\<close> and the spellings \<open>pre\<close> of the
  optional group: either the whole string is forty digits, or it is one of the
  prefixes followed by forty digits.
\<close>

definition re_addr :: "string list \<Rightarrow> (char \<Rightarrow> bool) \<Rightarrow> string \<Rightarrow> bool" where
  "re_addr pre cls s =
     ((length s = 40 \<and> list_all cls s) \<or>
      (take 2 s \<in> set pre \<and> length (drop 2 s) = 40 \<and> list_all cls (drop 2 s)))"

definition re_addr_i :: "string \<Rightarrow> bool" where
  "re_addr_i s = re_addr [''0x'', ''0X''] any_hex s"

definition re_addr_lower :: "string \<Rightarrow> bool" where
  "re_addr_lower s = re_addr [''0x''] lower_hex s"

definition re_addr_upper :: "string \<Rightarrow> bool" where
  "re_addr_upper s = re_addr [''0x''] upper_hex s"

section \<open>Hex strings\<close>

text \<open>
  \<^verbatim>\<open>isValidHex\<close>: a value that is not a string is refused, the empty string is
  accepted, and any other string is tested after \<^verbatim>\<open>substring(0, 2) === '0x'\<close> has
  chosen between \<^verbatim>\<open>str.substring(2).toUpperCase()\<close> and \<^verbatim>\<open>str.toUpperCase()\<close>.
  No step of it can throw.
\<close>

fun isValidHex :: "jsval \<Rightarrow> bool" where
  "isValidHex (Str str) =
     (if str = [] then True
      else re_upper_hex_star
        (if take 2 str = ''0x'' then toUpperCase (drop 2 str) else toUpperCase str))"
| "isValidHex _ = False"

section \<open>Ethereum addresses\<close>

text \<open>
  \<^verbatim>\<open>toChecksumAddress\<close> of ethereumjs-util is a collaborator: a parameter \<open>cs\<close>
  that returns a string or throws.
\<close>

definition isChecksumAddress :: "(string \<Rightarrow> js_error + string) \<Rightarrow> string \<Rightarrow> js_error + bool" where
  "isChecksumAddress cs address =
     (case cs address of Inl e \<Rightarrow> Inl e | Inr c \<Rightarrow> Inr (address = c))"

text \<open>
  \<^verbatim>\<open>validateEtherAddress\<close> starts with \<^verbatim>\<open>address.substring(0, 2)\<close>. Only a string has
  a method \<^verbatim>\<open>substring\<close>: on undefined and null the property access throws, and on
  every other value of the universe the property is missing or is data, so the call
  throws a TypeError.
\<close>

fun validateEtherAddress :: "(string \<Rightarrow> js_error + string) \<Rightarrow> jsval \<Rightarrow> js_error + bool" where
  "validateEtherAddress cs (Str address) =
     (if take 2 address \<noteq> ''0x'' then Inr False
      else if \<not> re_addr_i address then Inr False
      else if re_addr_lower address \<or> re_addr_upper address then Inr True
      else isChecksumAddress cs address)"
| "validateEtherAddress cs _ = Inl TypeError"

definition zero_address :: string where
  "zero_address = ''0x0000000000000000000000000000000000000000''"

definition isValidETHAddress :: "(string \<Rightarrow> js_error + string) \<Rightarrow> jsval \<Rightarrow> js_error + bool" where
  "isValidETHAddress cs address =
     (if \<not> truthy address then Inr False
      else if address = Str zero_address then Inr False
      else validateEtherAddress cs address)"

section \<open>Name-service identifiers\<close>

text \<open>
  \<^verbatim>\<open>normalise\<close> of \<^verbatim>\<open>./ens\<close> is a collaborator: a parameter that returns a string or
  throws. Both name checks run inside \<^verbatim>\<open>try\<close> and return false from \<^verbatim>\<open>catch\<close>.

  For a string, \<^verbatim>\<open>isValidENSName\<close> is the conjunction the source writes. For any other
  value every path ends in false: the conjunction is cut short by a false operand, or
  a step throws, at the latest \<^verbatim>\<open>str.substring\<close>, which only a string has.
\<close>

fun isValidENSName :: "(jsval \<Rightarrow> js_error + string) \<Rightarrow> jsval \<Rightarrow> js_error + bool" where
  "isValidENSName normalise (Str str) =
     (if \<not> 6 < length str then Inr False
      else (case normalise (Str str) of
              Inl e \<Rightarrow> Inr False
            | Inr n \<Rightarrow> Inr (n \<noteq> [] \<and> take 2 str \<noteq> ''0x'')))"
| "isValidENSName normalise v = Inr False"

text \<open>\<^verbatim>\<open>s.lastIndexOf(c)\<close>: the index of the last occurrence of \<open>c\<close>, or -1.\<close>

definition lastIndexOf :: "string \<Rightarrow> char \<Rightarrow> int" where
  "lastIndexOf s c =
     (if c \<in> set s then int (length s) - 1 - int (length (takeWhile (\<lambda>x. x \<noteq> c) (rev s)))
      else - 1)"

text \<open>\<^verbatim>\<open>s.substr(start)\<close>: a negative start counts from the end of the string.\<close>

definition substr :: "string \<Rightarrow> int \<Rightarrow> string" where
  "substr s start =
     (if start < 0 then drop (nat (int (length s) + start)) s else drop (nat start) s)"

definition validTLDs :: "(string \<times> jsval) list" where
  "validTLDs = [(''eth'', Bool True), (''test'', Bool True), (''reverse'', Bool True)]"

text \<open>
  \<^verbatim>\<open>validTLDs[tld]\<close> is a property read on an object literal: a key that is not an own
  property is looked up on \<^verbatim>\<open>Object.prototype\<close>, whose properties are functions (and
  \<^verbatim>\<open>__proto__\<close>, which reads as the prototype object), all truthy.
\<close>

definition object_prototype_keys :: "string list" where
  "object_prototype_keys =
     [''constructor'', ''hasOwnProperty'', ''isPrototypeOf'', ''propertyIsEnumerable'',
      ''toLocaleString'', ''toString'', ''valueOf'', ''__proto__'',
      ''__defineGetter__'', ''__defineSetter__'', ''__lookupGetter__'', ''__lookupSetter__'']"

definition member_truthy :: "(string \<times> jsval) list \<Rightarrow> string \<Rightarrow> bool" where
  "member_truthy ps key =
     (case map_of ps key of
        Some v \<Rightarrow> truthy v
      | None \<Rightarrow> key \<in> set object_prototype_keys)"

definition isValidENSAddress :: "(jsval \<Rightarrow> js_error + string) \<Rightarrow> jsval \<Rightarrow> js_error + bool" where
  "isValidENSAddress normalise address =
     (case normalise address of
        Inl e \<Rightarrow> Inr False
      | Inr normalized \<Rightarrow>
          (let tld = substr normalized (lastIndexOf normalized CHR ''.'' + 1)
           in if member_truthy validTLDs tld then Inr True else Inr False))"

text \<open>\<^verbatim>\<open>a || b\<close> on two checks: the second runs when the first returned false.\<close>

definition isValidENSorEtherAddress ::
  "(string \<Rightarrow> js_error + string) \<Rightarrow> (jsval \<Rightarrow> js_error + string) \<Rightarrow> jsval \<Rightarrow> js_error + bool" where
  "isValidENSorEtherAddress cs normalise address =
     (case isValidETHAddress cs address of
        Inl e \<Rightarrow> Inl e
      | Inr True \<Rightarrow> Inr True
      | Inr False \<Rightarrow> isValidENSAddress normalise address)"

section \<open>Raw transactions\<close>

text \<open>A requirement: the field's name, the \<^verbatim>\<open>typeof\<close> it must have, and \<^verbatim>\<open>lenReq\<close>.\<close>

definition propReqs :: "(string \<times> string \<times> bool) list" where
  "propReqs =
     [(''nonce'', ''string'', True),
      (''gasPrice'', ''string'', True),
      (''gasLimit'', ''string'', True),
      (''to'', ''string'', True),
      (''value'', ''string'', True),
      (''data'', ''string'', False),
      (''chainId'', ''number'', False)]"

text \<open>
  An object is the list of its own properties; a key reads as its first binding and
  \<^verbatim>\<open>Object.keys\<close> lists every key once. None of the required names is a property of
  \<^verbatim>\<open>Object.prototype\<close>, so \<^verbatim>\<open>rawTx[prop.name]\<close> is the own property or undefined.

  \<^verbatim>\<open>rawTx.hasOwnProperty(prop.name)\<close> looks the method up on the object itself first:
  an own property of that name shadows the inherited method, and since it holds data
  the call throws a TypeError.

  The loop body, for the requirements still to check: \<open>Inr True\<close> when the loop runs to
  its end, \<open>Inr False\<close> for \<^verbatim>\<open>return false\<close>. Where the required type is \<^verbatim>\<open>string\<close> and
  \<^verbatim>\<open>typeof value\<close> has matched it, the value is a string; the other branch of the case
  is never taken.
\<close>

fun check_props :: "(string \<times> jsval) list \<Rightarrow> (string \<times> string \<times> bool) list \<Rightarrow> js_error + bool" where
  "check_props rawTx [] = Inr True"
| "check_props rawTx ((name, ty, lenReq) # rest) =
     (let value = (case map_of rawTx name of Some v \<Rightarrow> v | None \<Rightarrow> Undefined) in
      if map_of rawTx ''hasOwnProperty'' \<noteq> None then Inl TypeError
      else if map_of rawTx name = None then Inr False
      else if typeof value \<noteq> ty then Inr False
      else if ty = ''string'' then
        (case value of
           Str s \<Rightarrow>
             if lenReq \<and> length s = 0 then Inr False
             else if length s \<noteq> 0 \<and> take 2 s \<noteq> ''0x'' then Inr False
             else if \<not> isValidHex value then Inr False
             else check_props rawTx rest
         | _ \<Rightarrow> check_props rawTx rest)
      else check_props rawTx rest)"

definition object_keys :: "(string \<times> jsval) list \<Rightarrow> string list" where
  "object_keys ps = remdups (map fst ps)"

text \<open>
  On undefined and null the first property read throws. A primitive or an array has
  no own property \<^verbatim>\<open>nonce\<close> and inherits \<^verbatim>\<open>hasOwnProperty\<close>, so the first turn of the
  loop returns false.
\<close>

fun isValidRawTx :: "jsval \<Rightarrow> js_error + bool" where
  "isValidRawTx (Obj rawTx) =
     (case check_props rawTx propReqs of
        Inl e \<Rightarrow> Inl e
      | Inr False \<Rightarrow> Inr False
      | Inr True \<Rightarrow>
          if length (object_keys rawTx) \<noteq> length propReqs then Inr False else Inr True)"
| "isValidRawTx Undefined = Inl TypeError"
| "isValidRawTx Null = Inl TypeError"
| "isValidRawTx v = Inr False"

section \<open>Numbers and their decimal text\<close>

definition digit_char :: "nat \<Rightarrow> char" where
  "digit_char d = ''0123456789'' ! d"

definition is_digit :: "char \<Rightarrow> bool" where
  "is_digit c = (c \<in> set ''0123456789'')"

definition digit_val :: "char \<Rightarrow> nat" where
  "digit_val c = length (takeWhile (\<lambda>d. d \<noteq> c) ''0123456789'')"

text \<open>The decimal digits of a natural number, without leading zeros.\<close>

fun dec_digits :: "nat \<Rightarrow> string" where
  "dec_digits n =
     (if n < 10 then [digit_char n] else dec_digits (n div 10) @ [digit_char (n mod 10)])"

declare dec_digits.simps [simp del]

definition nat_of_digits :: "string \<Rightarrow> nat" where
  "nat_of_digits ds = foldl (\<lambda>a c. 10 * a + digit_val c) 0 ds"

text \<open>A natural number without its trailing zeros.\<close>

fun strip_zeros :: "nat \<Rightarrow> nat" where
  "strip_zeros m = (if m = 0 then 0 else if m mod 10 = 0 then strip_zeros (m div 10) else m)"

declare strip_zeros.simps [simp del]

text \<open>
  The number of an integer \<open>m\<close> with a sign: its digits without the trailing zeros,
  and the decimal point after all digits of \<open>m\<close>. This is the number that \<^verbatim>\<open>parseInt\<close>
  returns for the digits of \<open>m\<close> whenever \<open>m\<close> is a number itself, as is every integer
  that \<^verbatim>\<open>Number::toString\<close> prints in full.
\<close>

definition jsnum_of_nat :: "bool \<Rightarrow> nat \<Rightarrow> jsnum" where
  "jsnum_of_nat neg m =
     (if m = 0 then Zero neg else Dec neg (strip_zeros m) (int (length (dec_digits m))))"

text \<open>A form is well formed when its digits are those of a positive number with no trailing zero.\<close>

fun wf_num :: "jsnum \<Rightarrow> bool" where
  "wf_num (Dec neg s n) = (0 < s \<and> s mod 10 \<noteq> 0)"
| "wf_num _ = True"

text \<open>The value of a finite number, as a rational.\<close>

fun num_value :: "jsnum \<Rightarrow> rat option" where
  "num_value NaN = None"
| "num_value (Inf neg) = None"
| "num_value (Zero neg) = Some 0"
| "num_value (Dec neg s n) =
     Some ((if neg then - 1 else 1) * of_nat s * 10 powi (n - int (length (dec_digits s))))"

text \<open>
  \<^verbatim>\<open>Number::toString\<close> (radix 10) of ECMAScript, steps 6 to 10, on the digits \<open>s\<close> and
  the position \<open>n\<close> of the decimal point.
\<close>

definition exponent_text :: "int \<Rightarrow> string" where
  "exponent_text e = (if e < 0 then ''-'' else ''+'') @ dec_digits (nat \<bar>e\<bar>)"

definition dec_toString :: "nat \<Rightarrow> int \<Rightarrow> string" where
  "dec_toString s n =
     (let ds = dec_digits s; k = int (length ds) in
      if k \<le> n \<and> n \<le> 21 then ds @ replicate (nat (n - k)) CHR ''0''
      else if 0 < n \<and> n \<le> 21 then take (nat n) ds @ ''.'' @ drop (nat n) ds
      else if - 6 < n \<and> n \<le> 0 then ''0.'' @ replicate (nat (- n)) CHR ''0'' @ ds
      else if k = 1 then ds @ ''e'' @ exponent_text (n - 1)
      else take 1 ds @ ''.'' @ drop 1 ds @ ''e'' @ exponent_text (n - 1))"

fun num_toString :: "jsnum \<Rightarrow> string" where
  "num_toString NaN = ''NaN''"
| "num_toString (Zero neg) = ''0''"
| "num_toString (Inf neg) = (if neg then ''-Infinity'' else ''Infinity'')"
| "num_toString (Dec neg s n) = (if neg then ''-'' else []) @ dec_toString s n"

text \<open>
  \<^verbatim>\<open>parseInt(string, 10)\<close>: leading white space is skipped, a sign is read, and the
  longest run of decimal digits is the integer; no digit gives NaN.
\<close>

definition is_whitespace :: "char \<Rightarrow> bool" where
  "is_whitespace c = (of_char c \<in> set [9, 10, 11, 12, 13, 32, 160 :: nat])"

definition parseInt10 :: "string \<Rightarrow> jsnum" where
  "parseInt10 str =
     (let t = dropWhile is_whitespace str;
          neg = (take 1 t = ''-'');
          u = (if take 1 t = ''-'' \<or> take 1 t = ''+'' then drop 1 t else t);
          z = takeWhile is_digit u
      in if z = [] then NaN else jsnum_of_nat neg (nat_of_digits z))"

fun isNaN :: "jsnum \<Rightarrow> bool" where
  "isNaN NaN = True"
| "isNaN _ = False"

fun isFinite :: "jsnum \<Rightarrow> bool" where
  "isFinite NaN = False"
| "isFinite (Inf neg) = False"
| "isFinite _ = True"

text \<open>\<^verbatim>\<open>num >= 0\<close> and \<^verbatim>\<open>a === b\<close> on numbers.\<close>

fun num_ge_zero :: "jsnum \<Rightarrow> bool" where
  "num_ge_zero NaN = False"
| "num_ge_zero (Inf neg) = (\<not> neg)"
| "num_ge_zero (Zero neg) = True"
| "num_ge_zero (Dec neg s n) = (\<not> neg)"

fun num_strict_eq :: "jsnum \<Rightarrow> jsnum \<Rightarrow> bool" where
  "num_strict_eq NaN b = False"
| "num_strict_eq a NaN = False"
| "num_strict_eq (Zero m) (Zero n) = True"
| "num_strict_eq a b = (a = b)"

definition isPositiveIntegerOrZero :: "jsnum \<Rightarrow> bool" where
  "isPositiveIntegerOrZero num =
     (if isNaN num \<or> \<not> isFinite num then False
      else num_ge_zero num \<and> num_strict_eq (parseInt10 (num_toString num)) num)"

section \<open>Conversions of values\<close>

text \<open>
  ToString, as a template literal applies it. A plain object prints through the
  inherited \<^verbatim>\<open>Object.prototype.toString\<close>; an own property \<^verbatim>\<open>toString\<close> shadows it, holds
  data, and leaves only \<^verbatim>\<open>valueOf\<close>, which does not give a primitive: a TypeError. An
  array prints through \<^verbatim>\<open>join\<close>: its elements separated by commas, undefined and null
  as the empty string.
\<close>

fun js_toString :: "jsval \<Rightarrow> js_error + string"
  and js_join :: "jsval list \<Rightarrow> js_error + string" where
  "js_toString Undefined = Inr ''undefined''"
| "js_toString Null = Inr ''null''"
| "js_toString (Bool b) = Inr (if b then ''true'' else ''false'')"
| "js_toString (Num n) = Inr (num_toString n)"
| "js_toString (Str s) = Inr s"
| "js_toString (Obj ps) =
     (if map_of ps ''toString'' \<noteq> None then Inl TypeError else Inr ''[object Object]'')"
| "js_toString (Arr xs) = js_join xs"
| "js_join [] = Inr []"
| "js_join (x # xs) =
     (case (if x = Undefined \<or> x = Null then Inr [] else js_toString x) of
        Inl e \<Rightarrow> Inl e
      | Inr s \<Rightarrow>
          if xs = [] then Inr s
          else (case js_join xs of Inl e \<Rightarrow> Inl e | Inr r \<Rightarrow> Inr (s @ '','' @ r)))"

text \<open>
  A property read \<^verbatim>\<open>v.key\<close> for the keys the source reads from a response (\<^verbatim>\<open>error\<close>,
  \<^verbatim>\<open>message\<close>, \<^verbatim>\<open>data\<close>), which no prototype defines: undefined and null throw, an
  object gives its own property or undefined, any other value gives undefined.
\<close>

fun js_get :: "jsval \<Rightarrow> string \<Rightarrow> js_error + jsval" where
  "js_get Undefined key = Inl TypeError"
| "js_get Null key = Inl TypeError"
| "js_get (Obj ps) key = Inr (case map_of ps key of Some v \<Rightarrow> v | None \<Rightarrow> Undefined)"
| "js_get v key = Inr Undefined"

text \<open>\<^verbatim>\<open>v.length\<close>.\<close>

fun js_length :: "jsval \<Rightarrow> js_error + jsval" where
  "js_length Undefined = Inl TypeError"
| "js_length Null = Inl TypeError"
| "js_length (Str s) = Inr (Num (jsnum_of_nat False (length s)))"
| "js_length (Arr xs) = Inr (Num (jsnum_of_nat False (length xs)))"
| "js_length (Obj ps) = Inr (case map_of ps ''length'' of Some v \<Rightarrow> v | None \<Rightarrow> Undefined)"
| "js_length v = Inr Undefined"

text \<open>
  ToNumber. The number a string denotes is the runtime's \<^verbatim>\<open>StringToNumber\<close>, a
  parameter \<open>stn\<close>; an object or an array is first converted to its string.
\<close>

fun to_number :: "(string \<Rightarrow> jsnum) \<Rightarrow> jsval \<Rightarrow> js_error + jsnum" where
  "to_number stn Undefined = Inr NaN"
| "to_number stn Null = Inr (Zero False)"
| "to_number stn (Bool b) = Inr (if b then Dec False 1 1 else Zero False)"
| "to_number stn (Num n) = Inr n"
| "to_number stn (Str s) = Inr (stn s)"
| "to_number stn v = (case js_toString v of Inl e \<Rightarrow> Inl e | Inr s \<Rightarrow> Inr (stn s))"

text \<open>\<^verbatim>\<open>x > 0\<close> and \<^verbatim>\<open>x % 2 === 0\<close> on numbers.\<close>

fun num_gt_zero :: "jsnum \<Rightarrow> bool" where
  "num_gt_zero (Inf neg) = (\<not> neg)"
| "num_gt_zero (Dec neg s n) = (\<not> neg)"
| "num_gt_zero _ = False"

fun num_even :: "jsnum \<Rightarrow> bool" where
  "num_even (Zero neg) = True"
| "num_even (Dec neg s n) =
     (let k = int (length (dec_digits s)) in k < n \<or> (k = n \<and> s mod 2 = 0))"
| "num_even _ = False"

section \<open>Responses of the RPC node\<close>

text \<open>The schema is the object literal of the source.\<close>

definition schema_RpcNode :: jsval where
  "schema_RpcNode =
     Obj [(''type'', Str ''object''),
          (''additionalProperties'', Bool False),
          (''properties'',
             Obj [(''jsonrpc'', Obj [(''type'', Str ''string'')]),
                  (''id'', Obj [(''oneOf'',
                      Arr [Obj [(''type'', Str ''string'')], Obj [(''type'', Str ''integer'')]])]),
                  (''result'', Obj [(''oneOf'',
                      Arr [Obj [(''type'', Str ''string'')], Obj [(''type'', Str ''array'')]])]),
                  (''status'', Obj [(''type'', Str ''string'')]),
                  (''message'', Obj [(''type'', Str ''string''),
                                     (''maxLength'', Num (Dec False 2 1))])])]"

text \<open>
  \<^verbatim>\<open>v.validate\<close> of the jsonschema package is a collaborator: a parameter from the
  response and the schema to a result with the field \<^verbatim>\<open>valid\<close>.
\<close>

record validator_result =
  valid :: bool

definition isValidResult :: "(jsval \<Rightarrow> jsval \<Rightarrow> validator_result) \<Rightarrow> jsval \<Rightarrow> jsval \<Rightarrow> bool" where
  "isValidResult v response schemaFormat = valid (v response schemaFormat)"

definition formatErrors :: "jsval \<Rightarrow> string \<Rightarrow> js_error + string" where
  "formatErrors response apiType =
     (case js_get response ''error'' of
        Inl e \<Rightarrow> Inl e
      | Inr err \<Rightarrow>
          if truthy err then
            (case js_get err ''message'' of
               Inl e \<Rightarrow> Inl e
             | Inr m \<Rightarrow>
                 (case js_toString m of
                    Inl e \<Rightarrow> Inl e
                  | Inr ms \<Rightarrow>
                      (case js_get err ''data'' of
                         Inl e \<Rightarrow> Inl e
                       | Inr d \<Rightarrow>
                           (case js_toString d of
                              Inl e \<Rightarrow> Inl e
                            | Inr ds \<Rightarrow> Inr (ms @ '' '' @ ds)))))
          else Inr (''Invalid '' @ apiType @ '' Error''))"

text \<open>
  The checker that \<^verbatim>\<open>isValidEthCall(response, schemaType)\<close> returns, applied to the
  label and to the optional callback: \<open>None\<close> is the callback left out.
\<close>

definition isValidEthCall ::
  "(jsval \<Rightarrow> jsval \<Rightarrow> validator_result) \<Rightarrow> jsval \<Rightarrow> jsval \<Rightarrow> string \<Rightarrow>
   (jsval \<Rightarrow> js_error + jsval) option \<Rightarrow> js_error + jsval" where
  "isValidEthCall v response schemaType apiName cb =
     (if \<not> isValidResult v response schemaType then
        (case cb of
           Some f \<Rightarrow> f response
         | None \<Rightarrow>
             (case formatErrors response apiName of
                Inl e \<Rightarrow> Inl e
              | Inr msg \<Rightarrow> Inl (Error msg)))
      else Inr response)"

definition isValidGetBalance :: "(jsval \<Rightarrow> jsval \<Rightarrow> validator_result) \<Rightarrow> jsval \<Rightarrow> js_error + jsval" where
  "isValidGetBalance v response = isValidEthCall v response schema_RpcNode ''Get Balance'' None"

definition isValidTokenBalance :: "(jsval \<Rightarrow> jsval \<Rightarrow> validator_result) \<Rightarrow> jsval \<Rightarrow> js_error + jsval" where
  "isValidTokenBalance v response =
     isValidEthCall v response schema_RpcNode ''Token Balance''
       (Some (\<lambda>r. Inr (Obj [(''result'', Str ''Failed'')])))"

section \<open>Keys, paths, amounts and contract text\<close>

text \<open>
  \<^verbatim>\<open>WalletAddressValidator.validate\<close> is a collaborator: a parameter from the address and
  the currency to a boolean, or a throw.
\<close>

definition isValidBTCAddress :: "(jsval \<Rightarrow> string \<Rightarrow> js_error + bool) \<Rightarrow> jsval \<Rightarrow> js_error + bool" where
  "isValidBTCAddress wav address = wav address ''BTC''"

text \<open>
  Modelled from the spec: \<^verbatim>\<open>stripHexPrefix\<close> of \<^verbatim>\<open>libs/values\<close> is not among the sources;
  the specification says that an optional \<^verbatim>\<open>0x\<close> prefix is stripped.
\<close>

definition stripHexPrefix :: "string \<Rightarrow> string" where
  "stripHexPrefix s = (if take 2 s = ''0x'' then drop 2 s else s)"

text \<open>
  The argument of \<^verbatim>\<open>isValidPrivKey\<close> is a string, a Buffer (its bytes), or any other
  value. \<^verbatim>\<open>Buffer.from(_, 'hex')\<close> and \<^verbatim>\<open>isValidPrivate\<close> of ethereumjs-util are
  collaborators, each a parameter that returns or throws.
\<close>

datatype privkey = KeyString string | KeyBuffer "nat list" | KeyOther jsval

fun isValidPrivKey ::
  "(string \<Rightarrow> js_error + nat list) \<Rightarrow> (nat list \<Rightarrow> js_error + bool) \<Rightarrow> privkey \<Rightarrow> js_error + bool" where
  "isValidPrivKey from_hex isValidPrivate (KeyString privkey) =
     (let strippedKey = stripHexPrefix privkey;
          initialCheck = (length strippedKey = 64)
      in if initialCheck then
           (case from_hex strippedKey of
              Inl e \<Rightarrow> Inl e
            | Inr keyBuffer \<Rightarrow> isValidPrivate keyBuffer)
         else Inr False)"
| "isValidPrivKey from_hex isValidPrivate (KeyBuffer privkey) =
     (if length privkey = 32 then isValidPrivate privkey else Inr False)"
| "isValidPrivKey from_hex isValidPrivate (KeyOther v) = Inr False"

fun isValidEncryptedPrivKey :: "jsval \<Rightarrow> bool" where
  "isValidEncryptedPrivKey (Str privkey) = (length privkey = 128 \<or> length privkey = 132)"
| "isValidEncryptedPrivKey v = False"

text \<open>
  \<^verbatim>\<open>s.split(sep)\<close> for a separator that is not empty: the pieces between the
  occurrences of \<open>sep\<close>, found from the left. \<open>acc\<close> holds the current piece, reversed.
\<close>

function split_from :: "string \<Rightarrow> string \<Rightarrow> string \<Rightarrow> string list" where
  "split_from sep [] acc = [rev acc]"
| "split_from sep (c # cs) acc =
     (if sep \<noteq> [] \<and> take (length sep) (c # cs) = sep
      then rev acc # split_from sep (drop (length sep) (c # cs)) []
      else split_from sep cs (c # acc))"
  by pat_completeness auto
termination
  by (relation "measure (\<lambda>(sep, s, acc). length s)") auto

definition split :: "string \<Rightarrow> string \<Rightarrow> string list" where
  "split s sep = split_from sep s []"

text \<open>Only a string has a method \<^verbatim>\<open>split\<close>; on any other value the call throws.\<close>

fun isValidPath :: "jsval \<Rightarrow> js_error + bool" where
  "isValidPath (Str dPath) =
     (let len = length (split dPath [CHR 0x27, CHR ''/'']) in Inr (len = 3 \<or> len = 4))"
| "isValidPath v = Inl TypeError"

text \<open>
  \<^verbatim>\<open>parseFloat\<close> is the runtime's: a parameter \<open>pf\<close> from the string of its argument to
  a number. The double negation makes the result a boolean.
\<close>

definition isValidValue :: "(string \<Rightarrow> jsnum) \<Rightarrow> jsval \<Rightarrow> js_error + bool" where
  "isValidValue pf v =
     (if \<not> truthy v then Inr False
      else (case js_toString v of
              Inl e \<Rightarrow> Inl e
            | Inr s \<Rightarrow> Inr (isFinite (pf s) \<and> num_ge_zero (pf s))))"

definition isValidGasPrice :: "(string \<Rightarrow> jsnum) \<Rightarrow> jsval \<Rightarrow> js_error + bool" where
  "isValidGasPrice pf gasLimit =
     (if \<not> truthy gasLimit then Inr False
      else (case js_toString gasLimit of
              Inl e \<Rightarrow> Inl e
            | Inr s \<Rightarrow> Inr (isFinite (pf s) \<and> num_gt_zero (pf s))))"

text \<open>
  \<^verbatim>\<open>isPositiveIntegerOrZero\<close> on an argument of any runtime type. On a number it is the
  function above. On another value \<^verbatim>\<open>isNaN\<close>, \<^verbatim>\<open>isFinite\<close> and \<^verbatim>\<open>>=\<close> convert the value to
  a number; \<^verbatim>\<open>num.toString()\<close> is a method call, which throws on undefined and null and
  otherwise gives the text of the value; and \<^verbatim>\<open>===\<close> between the number that \<^verbatim>\<open>parseInt\<close>
  returns and a value that is not a number is false.
\<close>

fun isPositiveIntegerOrZero_value :: "(string \<Rightarrow> jsnum) \<Rightarrow> jsval \<Rightarrow> js_error + bool" where
  "isPositiveIntegerOrZero_value stn (Num num) = Inr (isPositiveIntegerOrZero num)"
| "isPositiveIntegerOrZero_value stn num =
     (case to_number stn num of
        Inl e \<Rightarrow> Inl e
      | Inr x \<Rightarrow>
          if isNaN x \<or> \<not> isFinite x then Inr False
          else if \<not> num_ge_zero x then Inr False
          else (case (if num = Undefined \<or> num = Null then Inl TypeError else js_toString num) of
                  Inl e \<Rightarrow> Inl e
                | Inr text \<Rightarrow> Inr False))"

text \<open>
  \<^verbatim>\<open>a && b && c\<close> returns the first falsy operand, or the last one. The first operand
  of \<^verbatim>\<open>isValidByteCode\<close> and of \<^verbatim>\<open>isValidAbiJson\<close> is the argument itself, the others are
  comparisons. For a string the length is a natural number; for another value it is
  whatever the property \<^verbatim>\<open>length\<close> holds, converted to a number.
\<close>

fun isValidByteCode :: "(string \<Rightarrow> jsnum) \<Rightarrow> jsval \<Rightarrow> js_error + jsval" where
  "isValidByteCode stn (Str byteCode) =
     (if byteCode = [] then Inr (Str byteCode)
      else if \<not> 0 < length byteCode then Inr (Bool False)
      else Inr (Bool (length byteCode mod 2 = 0)))"
| "isValidByteCode stn byteCode =
     (if \<not> truthy byteCode then Inr byteCode
      else (case js_length byteCode of
              Inl e \<Rightarrow> Inl e
            | Inr len \<Rightarrow>
                (case to_number stn len of
                   Inl e \<Rightarrow> Inl e
                 | Inr x \<Rightarrow>
                     if \<not> num_gt_zero x then Inr (Bool False)
                     else Inr (Bool (num_even x)))))"

definition startsWith :: "string \<Rightarrow> string \<Rightarrow> bool" where
  "startsWith s p = (take (length p) s = p)"

definition endsWith :: "string \<Rightarrow> string \<Rightarrow> bool" where
  "endsWith s p = (length p \<le> length s \<and> drop (length s - length p) s = p)"

text \<open>Only a string has the methods \<^verbatim>\<open>startsWith\<close> and \<^verbatim>\<open>endsWith\<close>.\<close>

fun isValidAbiJson :: "jsval \<Rightarrow> js_error + jsval" where
  "isValidAbiJson (Str abiJson) =
     (if abiJson = [] then Inr (Str abiJson)
      else if \<not> startsWith abiJson ''['' then Inr (Bool False)
      else Inr (Bool (endsWith abiJson '']'')))"
| "isValidAbiJson abiJson =
     (if \<not> truthy abiJson then Inr abiJson else Inl TypeError)"

section \<open>Notions of the specification\<close>

text \<open>
  An address in the sense of the specification: the prefix \<^verbatim>\<open>0x\<close> and forty hex digits
  of a class; it is of mixed case when the digits are hex digits, but neither all
  lower-case digits nor all upper-case digits.
\<close>

definition hex40 :: "(char \<Rightarrow> bool) \<Rightarrow> string \<Rightarrow> bool" where
  "hex40 cls a = (take 2 a = ''0x'' \<and> length (drop 2 a) = 40 \<and> list_all cls (drop 2 a))"

definition mixed_case :: "string \<Rightarrow> bool" where
  "mixed_case a = (hex40 any_hex a \<and> \<not> hex40 lower_hex a \<and> \<not> hex40 upper_hex a)"

text \<open>
  What one turn of the loop of \<^verbatim>\<open>isValidRawTx\<close> asks of a requirement, when the object
  does not shadow \<^verbatim>\<open>hasOwnProperty\<close>.
\<close>

definition field_ok :: "(string \<times> jsval) list \<Rightarrow> string \<times> string \<times> bool \<Rightarrow> bool" where
  "field_ok ps req =
     (case req of (name, ty, lenReq) \<Rightarrow>
        (case map_of ps name of
           None \<Rightarrow> False
         | Some (Str s) \<Rightarrow>
             ty = ''string'' \<and> \<not> (lenReq \<and> s = []) \<and> \<not> (s \<noteq> [] \<and> take 2 s \<noteq> ''0x'') \<and>
             isValidHex (Str s)
         | Some v \<Rightarrow> typeof v = ty \<and> ty \<noteq> ''string''))"

text \<open>
  A valid record in the words of the specification: exactly the seven keys; the six
  string fields are strings, start with \<^verbatim>\<open>0x\<close> unless empty, are valid hex, and only
  \<^verbatim>\<open>data\<close> may be empty; \<^verbatim>\<open>chainId\<close> is a number.
\<close>

definition required_keys :: "string set" where
  "required_keys = {''nonce'', ''gasPrice'', ''gasLimit'', ''to'', ''value'', ''data'', ''chainId''}"

definition hex_field :: "bool \<Rightarrow> jsval option \<Rightarrow> bool" where
  "hex_field nonempty v =
     (case v of
        Some (Str s) \<Rightarrow>
          (if nonempty then s \<noteq> [] else True) \<and> (if s \<noteq> [] then take 2 s = ''0x'' else True) \<and>
          isValidHex (Str s)
      | _ \<Rightarrow> False)"

definition number_field :: "jsval option \<Rightarrow> bool" where
  "number_field v = (case v of Some (Num n) \<Rightarrow> True | _ \<Rightarrow> False)"

definition valid_record :: "(string \<times> jsval) list \<Rightarrow> bool" where
  "valid_record ps =
     (fst ` set ps = required_keys \<and>
      hex_field True (map_of ps ''nonce'') \<and>
      hex_field True (map_of ps ''gasPrice'') \<and>
      hex_field True (map_of ps ''gasLimit'') \<and>
      hex_field True (map_of ps ''to'') \<and>
      hex_field True (map_of ps ''value'') \<and>
      hex_field False (map_of ps ''data'') \<and>
      number_field (map_of ps ''chainId''))"

text \<open>
  The property \<open>key\<close> of a value other than undefined and null, for a key that no
  prototype defines: the own property of an object, and undefined otherwise.
\<close>

fun own_field :: "jsval \<Rightarrow> string \<Rightarrow> jsval" where
  "own_field (Obj ps) key = (case map_of ps key of Some v \<Rightarrow> v | None \<Rightarrow> Undefined)"
| "own_field v key = Undefined"

text \<open>The allow-list of the specification.\<close>

definition allowed_tlds :: "string list" where
  "allowed_tlds = [''eth'', ''test'', ''reverse'']"

text \<open>
  A non-negative integer value, and a value below \<open>10 ^ 21\<close>, in terms of the
  rational value of a number.
\<close>

definition nonneg_integer :: "jsnum \<Rightarrow> bool" where
  "nonneg_integer x =
     (case num_value x of None \<Rightarrow> False | Some q \<Rightarrow> 0 \<le> q \<and> of_int \<lfloor>q\<rfloor> = q)"

definition below_1e21 :: "jsnum \<Rightarrow> bool" where
  "below_1e21 x = (case num_value x of None \<Rightarrow> False | Some q \<Rightarrow> q < 10 ^ 21)"

section \<open>Sample inputs\<close>

text \<open>A minimal valid record.\<close>

definition example_tx :: "(string \<times> jsval) list" where
  "example_tx =
     [(''nonce'', Str ''0x0''), (''gasPrice'', Str ''0x4a817c800''), (''gasLimit'', Str ''0x5208''),
      (''to'', Str ''0x12''), (''value'', Str ''0x0''), (''data'', Str []),
      (''chainId'', Num (Dec False 1 1))]"

text \<open>A normaliser for plain lower-case ASCII names, which it leaves as they are.\<close>

fun plain_normalise :: "jsval \<Rightarrow> js_error + string" where
  "plain_normalise (Str s) = Inr s"
| "plain_normalise v = Inl (Thrown ''not a name'')"

text \<open>A validator that refuses every response, and one that accepts every response.\<close>

definition refuse_all :: "jsval \<Rightarrow> jsval \<Rightarrow> validator_result" where
  "refuse_all response schemaFormat = \<lparr>valid = False\<rparr>"

definition accept_all :: "jsval \<Rightarrow> jsval \<Rightarrow> validator_result" where
  "accept_all response schemaFormat = \<lparr>valid = True\<rparr>"

text \<open>A response that carries an error object, as a node sends it.\<close>

definition failed_response :: jsval where
  "failed_response =
     Obj [(''jsonrpc'', Str ''2.0''), (''id'', Num (Dec False 1 1)),
          (''error'', Obj [(''code'', Num (Dec True 32 2)), (''message'', Str ''execution error''),
                           (''data'', Str ''revert'')])]"

text \<open>A response whose error carries data that has no text: an own property \<^verbatim>\<open>toString\<close>.\<close>

definition opaque_response :: jsval where
  "opaque_response =
     Obj [(''error'', Obj [(''message'', Str ''execution error''),
                           (''data'', Obj [(''toString'', Str ''x'')])])]"

section \<open>Hex strings: the claims\<close>

lemma toUpperCase_char_hex: "upper_hex (toUpperCase_char c) = any_hex c"
  unfolding upper_hex_def any_hex_def toUpperCase_char_def lower_letters_def upper_letters_def
  by (simp split: option.splits)

lemma upper_hex_toUpperCase: "list_all upper_hex (toUpperCase t) = list_all any_hex t"
  by (induction t) (simp_all add: toUpperCase_def toUpperCase_char_hex)

lemma not_string_cases: "typeof v \<noteq> ''string'' \<Longrightarrow> isValidHex v = False"
  by (cases v) simp_all

text \<open>
  Claim C6. A value that is not a string is refused; the empty string is accepted;
  any other string is accepted exactly when, once an optional leading \<^verbatim>\<open>0x\<close> is
  stripped and the rest is put in upper case, only the digits 0-9 and A-F remain. That
  is the same as the rest holding hex digits of either case.
\<close>

theorem isValidHex_spec:
  "(typeof v \<noteq> ''string'' \<longrightarrow> isValidHex v = False) \<and>
   isValidHex (Str []) = True \<and>
   (s \<noteq> [] \<longrightarrow>
      isValidHex (Str s) =
        list_all upper_hex (toUpperCase (if take 2 s = ''0x'' then drop 2 s else s))) \<and>
   list_all upper_hex (toUpperCase t) = list_all any_hex t"
  by (simp add: not_string_cases re_upper_hex_star_def upper_hex_toUpperCase)

text \<open>The prefix is matched in lower case only: \<^verbatim>\<open>0X1aF\<close> is refused for its X.\<close>

theorem isValidHex_spec_witness:
  "isValidHex (Num (Dec False 5 1)) = False \<and> isValidHex (Str []) = True \<and>
   isValidHex (Str ''0x1aF'') = True \<and> isValidHex (Str ''0X1aF'') = False \<and> isValidHex (Str ''0x'') = True"
  using isValidHex_spec [of "Num (Dec False 5 1)" "''0x1aF''" "''''"]
    isValidHex_spec [of Undefined "''0X1aF''" "''''"]
    isValidHex_spec [of Undefined "''0x''" "''''"]
  by (simp add: upper_hex_def toUpperCase_def toUpperCase_char_def lower_letters_def upper_letters_def)

section \<open>Ethereum addresses: the claims\<close>

lemma any_hex_lower: "lower_hex c \<Longrightarrow> any_hex c"
  by (auto simp: lower_hex_def any_hex_def)

lemma any_hex_upper: "upper_hex c \<Longrightarrow> any_hex c"
  by (auto simp: upper_hex_def any_hex_def)

lemma hex40_any: "hex40 lower_hex a \<or> hex40 upper_hex a \<Longrightarrow> hex40 any_hex a"
  by (auto simp: hex40_def list_all_iff any_hex_lower any_hex_upper)

lemma hex40_length: "hex40 cls a \<Longrightarrow> length a = 42"
  by (auto simp: hex40_def)

lemma re_addr_0x:
  assumes "take 2 a = ''0x''" "\<not> cls CHR ''x''" "''0x'' \<in> set pre"
  shows "re_addr pre cls a = hex40 cls a"
proof -
  have "a = ''0x'' @ drop 2 a"
    using assms(1) append_take_drop_id [of 2 a] by simp
  then obtain r where a: "a = ''0x'' @ r" ..
  show ?thesis
    using assms(2,3) unfolding re_addr_def hex40_def a by simp
qed

text \<open>
  On a string, the three regular expressions of \<^verbatim>\<open>validateEtherAddress\<close> come down to
  the class of the forty digits after the prefix.
\<close>

lemma validateEtherAddress_string:
  "validateEtherAddress cs (Str a) =
     (if \<not> hex40 any_hex a then Inr False
      else if hex40 lower_hex a \<or> hex40 upper_hex a then Inr True
      else isChecksumAddress cs a)"
proof (cases "take 2 a = ''0x''")
  case True
  have "re_addr_i a = hex40 any_hex a" "re_addr_lower a = hex40 lower_hex a"
    "re_addr_upper a = hex40 upper_hex a"
    using True
    by (simp_all add: re_addr_i_def re_addr_lower_def re_addr_upper_def re_addr_0x 
        any_hex_def lower_hex_def upper_hex_def)
  then show ?thesis using True hex40_any [of a] by auto
next
  case False
  then show ?thesis by (simp add: hex40_def)
qed

lemma zero_address_hex40: "hex40 lower_hex zero_address"
  by (simp add: hex40_def zero_address_def lower_hex_def)

text \<open>
  Claim C3, as stated, promises true for every lower-case address. The all-zero
  address is one, and \<^verbatim>\<open>isValidETHAddress\<close> refuses it before the format is looked at.
\<close>

theorem isValidETHAddress_zero_counterexample:
  "hex40 lower_hex zero_address \<and> isValidETHAddress Inr (Str zero_address) = Inr False"
  by (simp add: zero_address_hex40 isValidETHAddress_def)

text \<open>
  Claim C3, amended. An address of forty lower-case or forty upper-case hex digits
  other than the all-zero address is accepted whatever the checksum function \<open>cs\<close>
  does, even if it throws. An address of mixed case is accepted exactly when it equals
  its checksum form (and a throw of \<open>cs\<close> is passed on). On every string that is not an
  address of mixed case the result does not depend on \<open>cs\<close>.
\<close>

theorem isValidETHAddress_case_rule:
  "((hex40 lower_hex a \<or> hex40 upper_hex a) \<and> a \<noteq> zero_address \<longrightarrow>
      isValidETHAddress cs (Str a) = Inr True) \<and>
   (mixed_case a \<longrightarrow>
      isValidETHAddress cs (Str a) =
        (case cs a of Inl e \<Rightarrow> Inl e | Inr c \<Rightarrow> Inr (a = c))) \<and>
   (\<not> mixed_case a \<longrightarrow> isValidETHAddress cs (Str a) = isValidETHAddress cs' (Str a))"
proof (intro conjI impI)
  assume h: "(hex40 lower_hex a \<or> hex40 upper_hex a) \<and> a \<noteq> zero_address"
  then have "hex40 any_hex a" using hex40_any by blast
  moreover have "a \<noteq> []" using h hex40_length by fastforce
  ultimately show "isValidETHAddress cs (Str a) = Inr True"
    using h by (simp add: isValidETHAddress_def validateEtherAddress_string del: validateEtherAddress.simps)
next
  assume m: "mixed_case a"
  then have "a \<noteq> []" "a \<noteq> zero_address"
    using hex40_length zero_address_hex40 by (fastforce simp: mixed_case_def)+
  then show "isValidETHAddress cs (Str a) = (case cs a of Inl e \<Rightarrow> Inl e | Inr c \<Rightarrow> Inr (a = c))"
    using m by (simp add: isValidETHAddress_def validateEtherAddress_string mixed_case_def
        isChecksumAddress_def del: validateEtherAddress.simps)
next
  assume "\<not> mixed_case a"
  then show "isValidETHAddress cs (Str a) = isValidETHAddress cs' (Str a)"
    by (auto simp add: isValidETHAddress_def validateEtherAddress_string mixed_case_def simp del: validateEtherAddress.simps)
qed

theorem isValidETHAddress_case_rule_witness:
  "isValidETHAddress (\<lambda>a. Inl TypeError) (Str ''0xaaaaaaaaaaaaaaaaaaaaaaaaaaaaaaaaaaaaaaaa'') = Inr True \<and>
   isValidETHAddress Inr (Str ''0xaAaaaaaaaaaaaaaaaaaaaaaaaaaaaaaaaaaaaaaa'') = Inr True \<and>
   isValidETHAddress Inr (Str ''0x12'') = isValidETHAddress (\<lambda>a. Inl TypeError) (Str ''0x12'')"
  using isValidETHAddress_case_rule [of "''0xaaaaaaaaaaaaaaaaaaaaaaaaaaaaaaaaaaaaaaaa''" "\<lambda>a. Inl TypeError" Inr]
    isValidETHAddress_case_rule [of "''0xaAaaaaaaaaaaaaaaaaaaaaaaaaaaaaaaaaaaaaaa''" Inr Inr]
    isValidETHAddress_case_rule [of "''0x12''" Inr "\<lambda>a. Inl TypeError"]
  by (simp add: mixed_case_def hex40_def lower_hex_def upper_hex_def any_hex_def zero_address_def)

text \<open>The falsy values, listed.\<close>

lemma falsy_cases:
  "(\<not> truthy v) = (v \<in> {Undefined, Null, Bool False, Num NaN, Num (Zero False), Num (Zero True), Str []})"
  apply (cases v; simp)
  subgoal for n by (cases n; auto)
  done

text \<open>
  Claim C4. \<^verbatim>\<open>isValidETHAddress\<close> returns false for every falsy value and for the
  all-zero address, although that address is forty lower-case hex digits after \<^verbatim>\<open>0x\<close>
  and passes \<^verbatim>\<open>validateEtherAddress\<close>.
\<close>

theorem isValidETHAddress_falsy_or_zero:
  "(\<not> truthy v \<longrightarrow> isValidETHAddress cs v = Inr False) \<and>
   isValidETHAddress cs (Str zero_address) = Inr False \<and>
   hex40 lower_hex zero_address \<and>
   validateEtherAddress cs (Str zero_address) = Inr True"
  by (simp add: isValidETHAddress_def validateEtherAddress_string zero_address_hex40 hex40_any del: validateEtherAddress.simps)

theorem isValidETHAddress_falsy_or_zero_witness:
  "isValidETHAddress Inr Undefined = Inr False \<and> isValidETHAddress Inr (Str []) = Inr False \<and>
   isValidETHAddress Inr (Num (Zero False)) = Inr False \<and>
   isValidETHAddress Inr (Str zero_address) = Inr False"
  using isValidETHAddress_falsy_or_zero [of Undefined Inr]
    isValidETHAddress_falsy_or_zero [of "Str []" Inr]
    isValidETHAddress_falsy_or_zero [of "Num (Zero False)" Inr]
  by simp

section \<open>Raw transactions: the claims\<close>

lemma check_props_plain:
  "map_of ps ''hasOwnProperty'' = None \<Longrightarrow> check_props ps reqs = Inr (list_all (field_ok ps) reqs)"
proof (induction reqs)
  case Nil
  then show ?case by simp
next
  case (Cons r reqs)
  obtain name ty lenReq where r: "r = (name, ty, lenReq)" by (cases r)
  show ?case
  proof (cases "map_of ps name")
    case None
    then show ?thesis using Cons r by (simp add: field_ok_def)
  next
    case (Some v)
    then show ?thesis using Cons r
      by (cases v) (auto simp: field_ok_def Let_def)
  qed
qed

lemma check_props_shadowed:
  "map_of ps ''hasOwnProperty'' \<noteq> None \<Longrightarrow> reqs \<noteq> [] \<Longrightarrow> check_props ps reqs = Inl TypeError"
  by (cases reqs) (auto simp: Let_def)

lemma string_field_ok: "field_ok ps (name, ''string'', lenReq) = hex_field lenReq (map_of ps name)"
  by (auto simp: field_ok_def hex_field_def split: option.splits jsval.splits)

lemma number_field_ok: "field_ok ps (name, ''number'', lenReq) = number_field (map_of ps name)"
  by (auto simp: field_ok_def number_field_def split: option.splits jsval.splits)

lemma all_fields_ok:
  "list_all (field_ok ps) propReqs =
     (hex_field True (map_of ps ''nonce'') \<and>
      hex_field True (map_of ps ''gasPrice'') \<and>
      hex_field True (map_of ps ''gasLimit'') \<and>
      hex_field True (map_of ps ''to'') \<and>
      hex_field True (map_of ps ''value'') \<and>
      hex_field False (map_of ps ''data'') \<and>
      number_field (map_of ps ''chainId''))"
  by (simp add: propReqs_def string_field_ok number_field_ok)

lemma card_required_keys: "card required_keys = 7"
  by (simp add: required_keys_def)

lemma field_ok_dom: "field_ok ps (name, ty, lenReq) \<Longrightarrow> name \<in> fst ` set ps"
  by (auto simp: field_ok_def split: option.splits dest: map_of_SomeD intro: rev_image_eqI)

lemma all_fields_dom:
  "list_all (field_ok ps) propReqs \<Longrightarrow> required_keys \<subseteq> fst ` set ps"
  by (auto simp: propReqs_def required_keys_def dest: field_ok_dom)

lemma keys_exact:
  assumes "required_keys \<subseteq> fst ` set ps"
  shows "length (object_keys ps) = 7 \<longleftrightarrow> fst ` set ps = required_keys"
proof -
  have len: "length (object_keys ps) = card (fst ` set ps)"
    by (simp add: object_keys_def length_remdups_card_conv)
  show ?thesis
  proof
    assume "length (object_keys ps) = 7"
    then have "card (fst ` set ps) = card required_keys"
      using len card_required_keys by simp
    then show "fst ` set ps = required_keys"
      using assms card_subset_eq [of "fst ` set ps" required_keys] by auto
  next
    assume "fst ` set ps = required_keys"
    then show "length (object_keys ps) = 7"
      using len card_required_keys by simp
  qed
qed

text \<open>
  An object with no own property \<^verbatim>\<open>hasOwnProperty\<close> is accepted exactly when it is a
  valid record; one that has such a property makes the first turn of the loop throw.
\<close>

lemma isValidRawTx_plain:
  assumes "map_of ps ''hasOwnProperty'' = None"
  shows "isValidRawTx (Obj ps) = Inr (valid_record ps)"
proof -
  define ok where "ok = list_all (field_ok ps) propReqs"
  have cp: "check_props ps propReqs = Inr ok"
    using assms by (simp add: check_props_plain ok_def)
  have l7: "length propReqs = 7" by (simp add: propReqs_def)
  have run: "isValidRawTx (Obj ps) = Inr (ok \<and> length (object_keys ps) = 7)"
    by (cases ok) (simp_all add: cp l7)
  have "(ok \<and> length (object_keys ps) = 7) = (ok \<and> fst ` set ps = required_keys)"
    using keys_exact [of ps] all_fields_dom [of ps] unfolding ok_def by blast
  also have "\<dots> = valid_record ps"
    unfolding ok_def valid_record_def all_fields_ok by blast
  finally show ?thesis using run by simp
qed

lemma isValidRawTx_shadowed:
  "map_of ps ''hasOwnProperty'' \<noteq> None \<Longrightarrow> isValidRawTx (Obj ps) = Inl TypeError"
proof -
  assume "map_of ps ''hasOwnProperty'' \<noteq> None"
  moreover have "propReqs \<noteq> []" by (simp add: propReqs_def)
  ultimately have "check_props ps propReqs = Inl TypeError"
    by (rule check_props_shadowed)
  then show ?thesis by simp
qed

lemma valid_record_no_shadow: "valid_record ps \<Longrightarrow> map_of ps ''hasOwnProperty'' = None"
  by (simp add: valid_record_def map_of_eq_None_iff required_keys_def)

text \<open>
  The equivalence of claim C1 holds for every value: \<^verbatim>\<open>isValidRawTx\<close> returns true
  exactly on the valid records.
\<close>

lemma isValidRawTx_true_iff:
  "isValidRawTx v = Inr True \<longleftrightarrow> (\<exists>ps. v = Obj ps \<and> valid_record ps)"
proof (cases v)
  case (Obj ps)
  show ?thesis
  proof (cases "map_of ps ''hasOwnProperty'' = None")
    case True
    then show ?thesis using Obj by (simp add: isValidRawTx_plain del: isValidRawTx.simps)
  next
    case False
    then show ?thesis using Obj valid_record_no_shadow
      by (auto simp add: isValidRawTx_shadowed simp del: isValidRawTx.simps)
  qed
qed simp_all

text \<open>
  A missing required field, or a field beyond the seven, gives false, as long as the
  object does not shadow \<^verbatim>\<open>hasOwnProperty\<close>.
\<close>

lemma isValidRawTx_missing_field:
  "map_of ps ''hasOwnProperty'' = None \<Longrightarrow> name \<in> required_keys \<Longrightarrow> map_of ps name = None \<Longrightarrow>
   isValidRawTx (Obj ps) = Inr False"
  by (auto simp add: isValidRawTx_plain valid_record_def map_of_eq_None_iff
      simp del: isValidRawTx.simps)

lemma isValidRawTx_extra_field:
  assumes "map_of ps ''hasOwnProperty'' = None" "name \<notin> required_keys" "map_of ps name = Some v"
  shows "isValidRawTx (Obj ps) = Inr False"
proof -
  have "name \<in> fst ` set ps"
    using assms(3) by (metis domI dom_map_of_conv_image_fst)
  then have "\<not> valid_record ps"
    using assms(2) by (auto simp: valid_record_def)
  then show ?thesis
    using assms(1) by (simp add: isValidRawTx_plain del: isValidRawTx.simps)
qed

lemma example_tx_valid: "valid_record example_tx"
  by (simp add: valid_record_def example_tx_def required_keys_def hex_field_def number_field_def
      re_upper_hex_star_def upper_hex_def toUpperCase_def toUpperCase_char_def
      lower_letters_def upper_letters_def insert_commute)

text \<open>
  Claim C1 says that a record carrying one extra field yields false. The minimal
  record is accepted, and with an extra field \<^verbatim>\<open>extra\<close> it yields false; with an extra
  field named \<^verbatim>\<open>hasOwnProperty\<close> the call \<^verbatim>\<open>rawTx.hasOwnProperty(prop.name)\<close> finds the
  field instead of the inherited method and throws a TypeError.
\<close>

theorem isValidRawTx_shadowed_hasOwnProperty:
  "isValidRawTx (Obj example_tx) = Inr True \<and>
   isValidRawTx (Obj (example_tx @ [(''extra'', Str ''0x0'')])) = Inr False \<and>
   isValidRawTx (Obj (example_tx @ [(''hasOwnProperty'', Str ''0x0'')])) = Inl TypeError"
proof (intro conjI)
  show "isValidRawTx (Obj example_tx) = Inr True"
    using example_tx_valid isValidRawTx_true_iff by blast
  show "isValidRawTx (Obj (example_tx @ [(''extra'', Str ''0x0'')])) = Inr False"
    by (rule isValidRawTx_extra_field [of _ "''extra''" "Str ''0x0''"])
      (simp_all add: example_tx_def required_keys_def)
  show "isValidRawTx (Obj (example_tx @ [(''hasOwnProperty'', Str ''0x0'')])) = Inl TypeError"
    by (rule isValidRawTx_shadowed) (simp add: example_tx_def)
qed

section \<open>Name-service identifiers: the claims\<close>

lemma lastIndexOf_absent: "c \<notin> set s \<Longrightarrow> lastIndexOf s c = - 1"
  by (simp add: lastIndexOf_def)

lemma lastIndexOf_last:
  assumes "c \<notin> set suf"
  shows "lastIndexOf (pre @ c # suf) c = int (length pre)"
proof -
  have "takeWhile (\<lambda>x. x \<noteq> c) (rev suf @ c # rev pre) = rev suf"
    using assms by (simp add: takeWhile_append)
  then show ?thesis by (simp add: lastIndexOf_def)
qed

text \<open>The text after the last dot, or the whole text when there is no dot.\<close>

lemma tld_after_last_dot:
  "CHR ''.'' \<notin> set suf \<Longrightarrow>
   substr (pre @ CHR ''.'' # suf) (lastIndexOf (pre @ CHR ''.'' # suf) CHR ''.'' + 1) = suf"
  by (simp add: lastIndexOf_last substr_def nat_add_distrib)

lemma tld_without_dot:
  "CHR ''.'' \<notin> set n \<Longrightarrow> substr n (lastIndexOf n CHR ''.'' + 1) = n"
  by (simp add: lastIndexOf_absent substr_def)

lemma member_truthy_validTLDs:
  "member_truthy validTLDs tld = (tld \<in> set allowed_tlds \<or> tld \<in> set object_prototype_keys)"
  by (auto simp: member_truthy_def validTLDs_def allowed_tlds_def)

text \<open>
  What \<^verbatim>\<open>isValidENSAddress\<close> computes: it never throws, a throw of the normaliser gives
  false, and a normalised name is accepted when its suffix is in the allow-list or
  is the name of a property that every object inherits.
\<close>

lemma isValidENSAddress_result:
  "isValidENSAddress normalise address =
     Inr (case normalise address of
            Inl e \<Rightarrow> False
          | Inr n \<Rightarrow>
              (let tld = substr n (lastIndexOf n CHR ''.'' + 1)
               in tld \<in> set allowed_tlds \<or> tld \<in> set object_prototype_keys))"
  by (simp add: isValidENSAddress_def member_truthy_validTLDs Let_def split: sum.splits)

text \<open>
  Claim C7 says that the name is accepted if and only if its suffix is one of eth,
  test and reverse. For a name whose normalised form is \<^verbatim>\<open>foo.constructor\<close> the suffix
  is not in the allow-list, yet \<^verbatim>\<open>validTLDs[tld]\<close> reads the inherited property
  \<^verbatim>\<open>constructor\<close>, a function, and the name is accepted.
\<close>

theorem isValidENSAddress_inherited_key:
  "normalise address = Inr ''foo.constructor'' \<Longrightarrow>
   ''constructor'' \<notin> set allowed_tlds \<and> isValidENSAddress normalise address = Inr True"
proof -
  assume n: "normalise address = Inr ''foo.constructor''"
  have "substr (''foo'' @ CHR ''.'' # ''constructor'')
          (lastIndexOf (''foo'' @ CHR ''.'' # ''constructor'') CHR ''.'' + 1) = ''constructor''"
    by (rule tld_after_last_dot) simp
  then have "substr ''foo.constructor'' (lastIndexOf ''foo.constructor'' CHR ''.'' + 1) = ''constructor''"
    by simp
  then show ?thesis
    using n by (simp add: isValidENSAddress_result allowed_tlds_def object_prototype_keys_def)
qed

theorem isValidENSAddress_inherited_key_witness:
  "plain_normalise (Str ''foo.constructor'') = Inr ''foo.constructor'' \<and>
   isValidENSAddress plain_normalise (Str ''foo.constructor'') = Inr True"
  using isValidENSAddress_inherited_key [of plain_normalise "Str ''foo.constructor''"]
  by simp

text \<open>
  Claim C9. When the normalised form has no dot, \<^verbatim>\<open>lastIndexOf\<close> is -1 and the suffix
  is the whole normalised form, so the result of \<^verbatim>\<open>isValidENSAddress\<close> is the lookup of
  the whole normalised form in \<^verbatim>\<open>validTLDs\<close>: true exactly when it is in the allow-list or
  names an inherited property. If it is eth, test or reverse the name is accepted; a
  name such as foo is refused.
\<close>

theorem isValidENSAddress_dotless:
  "normalise address = Inr n \<and> CHR ''.'' \<notin> set n \<longrightarrow>
     lastIndexOf n CHR ''.'' = - 1 \<and>
     substr n (lastIndexOf n CHR ''.'' + 1) = n \<and>
     isValidENSAddress normalise address = Inr (member_truthy validTLDs n) \<and>
     isValidENSAddress normalise address =
       Inr (n \<in> set allowed_tlds \<or> n \<in> set object_prototype_keys) \<and>
     (n \<in> set allowed_tlds \<longrightarrow> isValidENSAddress normalise address = Inr True)"
proof (intro impI, elim conjE)
  assume n: "normalise address = Inr n" and dot: "CHR ''.'' \<notin> set n"
  have tld: "substr n (lastIndexOf n CHR ''.'' + 1) = n"
    using dot by (rule tld_without_dot)
  have run: "isValidENSAddress normalise address = Inr (member_truthy validTLDs n)"
    using n tld by (simp add: isValidENSAddress_def Let_def)
  then have keys: "isValidENSAddress normalise address =
       Inr (n \<in> set allowed_tlds \<or> n \<in> set object_prototype_keys)"
    by (simp only: member_truthy_validTLDs)
  show "lastIndexOf n CHR ''.'' = - 1 \<and>
     substr n (lastIndexOf n CHR ''.'' + 1) = n \<and>
     isValidENSAddress normalise address = Inr (member_truthy validTLDs n) \<and>
     isValidENSAddress normalise address =
       Inr (n \<in> set allowed_tlds \<or> n \<in> set object_prototype_keys) \<and>
     (n \<in> set allowed_tlds \<longrightarrow> isValidENSAddress normalise address = Inr True)"
    using dot tld run keys by (auto simp: lastIndexOf_absent)
qed

theorem isValidENSAddress_dotless_witness:
  "isValidENSAddress plain_normalise (Str ''eth'') = Inr True \<and>
   isValidENSAddress plain_normalise (Str ''test'') = Inr True \<and>
   isValidENSAddress plain_normalise (Str ''reverse'') = Inr True \<and>
   isValidENSAddress plain_normalise (Str ''foo'') = Inr False \<and>
   lastIndexOf ''reverse'' CHR ''.'' = - 1"
  using isValidENSAddress_dotless [of plain_normalise "Str ''eth''" "''eth''"]
    isValidENSAddress_dotless [of plain_normalise "Str ''test''" "''test''"]
    isValidENSAddress_dotless [of plain_normalise "Str ''reverse''" "''reverse''"]
    isValidENSAddress_dotless [of plain_normalise "Str ''foo''" "''foo''"]
  by (simp add: allowed_tlds_def object_prototype_keys_def member_truthy_def validTLDs_def)

section \<open>Responses of the RPC node: the claims\<close>

lemma js_get_own_field:
  "response \<noteq> Undefined \<Longrightarrow> response \<noteq> Null \<Longrightarrow> js_get response key = Inr (own_field response key)"
  by (cases response) simp_all

lemma js_get_nullish: "response = Undefined \<or> response = Null \<Longrightarrow> js_get response key = Inl TypeError"
  by auto

lemma truthy_not_nullish: "truthy err \<Longrightarrow> err \<noteq> Undefined \<and> err \<noteq> Null"
  by auto

lemma js_toString_error:
  "js_toString v = Inl e \<Longrightarrow> e = TypeError"
  "js_join vs = Inl e \<Longrightarrow> e = TypeError"
  by (induction v and vs rule: js_toString_js_join.induct) (auto split: sum.splits if_splits)

text \<open>
  What \<^verbatim>\<open>formatErrors\<close> does on every response: the read of \<^verbatim>\<open>response.error\<close> throws on
  undefined and null; a missing or falsy error gives the message with the label; a
  truthy error gives the texts of its message and data, and throws where one of them
  has no text.
\<close>

lemma formatErrors_cases:
  "formatErrors response apiType =
     (if response = Undefined \<or> response = Null then Inl TypeError
      else if \<not> truthy (own_field response ''error'') then Inr (''Invalid '' @ apiType @ '' Error'')
      else (case js_toString (own_field (own_field response ''error'') ''message'') of
              Inl e \<Rightarrow> Inl TypeError
            | Inr ms \<Rightarrow>
                (case js_toString (own_field (own_field response ''error'') ''data'') of
                   Inl e \<Rightarrow> Inl TypeError
                 | Inr ds \<Rightarrow> Inr (ms @ '' '' @ ds))))"
proof (cases "response = Undefined \<or> response = Null")
  case True
  then show ?thesis by (auto simp: formatErrors_def)
next
  case False
  then have g: "js_get response ''error'' = Inr (own_field response ''error'')"
    by (simp add: js_get_own_field)
  show ?thesis
  proof (cases "truthy (own_field response ''error'')")
    case t: True
    then have ge: "js_get (own_field response ''error'') key = Inr (own_field (own_field response ''error'') key)" for key
      using truthy_not_nullish js_get_own_field by blast
    show ?thesis
      using False t js_toString_error
      by (auto simp: formatErrors_def g ge split: sum.splits)
  next
    case f: False
    then show ?thesis using False by (simp add: formatErrors_def g)
  qed
qed

text \<open>
  Claim C2, as stated, has the checker throw an Error with one of the two messages
  whenever validation fails and no fallback is given. For the response null, and for
  an error whose data is an object with an own property \<^verbatim>\<open>toString\<close>, it throws a
  TypeError instead.
\<close>

theorem isValidEthCall_outcomes_counterexample:
  "\<not> isValidResult refuse_all Null schema_RpcNode \<and>
   isValidGetBalance refuse_all Null = Inl TypeError \<and>
   \<not> isValidResult refuse_all opaque_response schema_RpcNode \<and>
   isValidGetBalance refuse_all opaque_response = Inl TypeError"
  by (simp add: isValidResult_def refuse_all_def isValidGetBalance_def isValidEthCall_def
      formatErrors_cases opaque_response_def)

text \<open>
  Claim C2, amended. The checker applied to a label and an optional fallback:
  \<^item> when validation succeeds, the response itself is returned and nothing is thrown;
  \<^item> when validation fails and a fallback is given, the result is the fallback's, applied
    to the response;
  \<^item> when validation fails and no fallback is given, the checker throws: a TypeError
    when the response is undefined or null; else, when \<^verbatim>\<open>response.error\<close> is missing or
    falsy, an Error with the message \<^verbatim>\<open>Invalid <label> Error\<close>; else an Error whose
    message is the text of \<^verbatim>\<open>error.message\<close>, a space, and the text of \<^verbatim>\<open>error.data\<close>,
    or a TypeError when one of the two has no text.

  At the call site of Token Balance the result is the response when validation
  succeeds and the object \<^verbatim>\<open>{result: 'Failed'}\<close> when it fails; the call site of Get
  Balance has no fallback and the label Get Balance.
\<close>

theorem isValidEthCall_outcomes:
  "(isValidResult v response schemaType \<longrightarrow>
      isValidEthCall v response schemaType apiName cb = Inr response) \<and>
   (\<not> isValidResult v response schemaType \<longrightarrow>
      isValidEthCall v response schemaType apiName (Some f) = f response) \<and>
   (\<not> isValidResult v response schemaType \<longrightarrow>
      isValidEthCall v response schemaType apiName None =
        (if response = Undefined \<or> response = Null then Inl TypeError
         else if \<not> truthy (own_field response ''error'')
           then Inl (Error (''Invalid '' @ apiName @ '' Error''))
         else (case js_toString (own_field (own_field response ''error'') ''message'') of
                 Inl e \<Rightarrow> Inl TypeError
               | Inr ms \<Rightarrow>
                   (case js_toString (own_field (own_field response ''error'') ''data'') of
                      Inl e \<Rightarrow> Inl TypeError
                    | Inr ds \<Rightarrow> Inl (Error (ms @ '' '' @ ds)))))) \<and>
   isValidTokenBalance v response =
     (if isValidResult v response schema_RpcNode then Inr response
      else Inr (Obj [(''result'', Str ''Failed'')])) \<and>
   isValidGetBalance v response =
     (if isValidResult v response schema_RpcNode then Inr response
      else if response = Undefined \<or> response = Null then Inl TypeError
      else if \<not> truthy (own_field response ''error'')
        then Inl (Error ''Invalid Get Balance Error'')
      else (case js_toString (own_field (own_field response ''error'') ''message'') of
              Inl e \<Rightarrow> Inl TypeError
            | Inr ms \<Rightarrow>
                (case js_toString (own_field (own_field response ''error'') ''data'') of
                   Inl e \<Rightarrow> Inl TypeError
                 | Inr ds \<Rightarrow> Inl (Error (ms @ '' '' @ ds)))))"
proof -
  have none: "\<not> isValidResult v response st \<Longrightarrow>
      isValidEthCall v response st name None =
        (if response = Undefined \<or> response = Null then Inl TypeError
         else if \<not> truthy (own_field response ''error'')
           then Inl (Error (''Invalid '' @ name @ '' Error''))
         else (case js_toString (own_field (own_field response ''error'') ''message'') of
                 Inl e \<Rightarrow> Inl TypeError
               | Inr ms \<Rightarrow>
                   (case js_toString (own_field (own_field response ''error'') ''data'') of
                      Inl e \<Rightarrow> Inl TypeError
                    | Inr ds \<Rightarrow> Inl (Error (ms @ '' '' @ ds)))))" for st name
    by (simp add: isValidEthCall_def formatErrors_cases split: sum.splits)
  have valid: "isValidResult v response st \<Longrightarrow> isValidEthCall v response st name c = Inr response"
    for st name c
    by (simp add: isValidEthCall_def)
  have some: "\<not> isValidResult v response schemaType \<Longrightarrow>
      isValidEthCall v response schemaType apiName (Some f) = f response"
    by (simp add: isValidEthCall_def)
  have token: "isValidTokenBalance v response =
     (if isValidResult v response schema_RpcNode then Inr response
      else Inr (Obj [(''result'', Str ''Failed'')]))"
    by (simp add: isValidTokenBalance_def isValidEthCall_def)
  have balance: "isValidGetBalance v response =
     (if isValidResult v response schema_RpcNode then Inr response
      else isValidEthCall v response schema_RpcNode ''Get Balance'' None)"
    by (simp add: isValidGetBalance_def valid)
  show ?thesis
    apply (intro conjI impI)
        apply (erule valid)
       apply (erule some)
      apply (erule none)
     apply (rule token)
    apply (cases "isValidResult v response schema_RpcNode")
     apply (simp add: balance)
    apply (simp add: balance none del: js_toString.simps)
    done
qed

theorem isValidEthCall_outcomes_witness:
  "isValidTokenBalance refuse_all failed_response = Inr (Obj [(''result'', Str ''Failed'')]) \<and>
   isValidTokenBalance accept_all failed_response = Inr failed_response \<and>
   isValidGetBalance refuse_all failed_response = Inl (Error ''execution error revert'') \<and>
   isValidGetBalance refuse_all (Obj [(''id'', Num (Dec False 1 1))]) =
     Inl (Error ''Invalid Get Balance Error'') \<and>
   isValidGetBalance refuse_all Null = Inl TypeError \<and>
   isValidGetBalance accept_all failed_response = Inr failed_response \<and>
   isValidEthCall refuse_all failed_response schema_RpcNode ''Call Request'' (Some (\<lambda>r. Inr Null)) =
     Inr Null"
  using isValidEthCall_outcomes [of refuse_all failed_response schema_RpcNode "''Call Request''"
      None "\<lambda>r. Inr Null"]
    isValidEthCall_outcomes [of accept_all failed_response schema_RpcNode "''Call Request''"
      None "\<lambda>r. Inr Null"]
    isValidEthCall_outcomes [of refuse_all "Obj [(''id'', Num (Dec False 1 1))]" schema_RpcNode
      "''Call Request''" None "\<lambda>r. Inr Null"]
    isValidEthCall_outcomes [of refuse_all Null schema_RpcNode "''Call Request''" None "\<lambda>r. Inr Null"]
  by (simp add: isValidResult_def refuse_all_def accept_all_def failed_response_def)

section \<open>Byte code and ABI text: the claims\<close>

lemma startsWith_char: "s \<noteq> [] \<Longrightarrow> startsWith s [c] = (hd s = c)"
  by (cases s) (simp_all add: startsWith_def)

lemma endsWith_char: "s \<noteq> [] \<Longrightarrow> endsWith s [c] = (last s = c)"
proof -
  assume "s \<noteq> []"
  then obtain xs x where s: "s = xs @ [x]" by (metis rev_exhaust)
  show ?thesis by (simp add: s endsWith_def)
qed

lemma isValidByteCode_falsy: "\<not> truthy v \<Longrightarrow> isValidByteCode stn v = Inr v"
  by (cases v) simp_all

lemma isValidAbiJson_falsy: "\<not> truthy v \<Longrightarrow> isValidAbiJson v = Inr v"
  by (cases v) simp_all

text \<open>
  Claim C10. For a falsy argument, the empty string among them, \<^verbatim>\<open>isValidByteCode\<close> and
  \<^verbatim>\<open>isValidAbiJson\<close> return the argument itself: for the empty string that is the empty
  string, which is not the boolean false. For a string that is not empty they return a
  boolean: whether the length is even, and whether the text starts with \<^verbatim>\<open>[\<close> and ends
  with \<^verbatim>\<open>]\<close>. So among strings the result is a boolean exactly for the truthy ones.
\<close>

theorem isValidByteCode_isValidAbiJson_results:
  "(\<not> truthy v \<longrightarrow> isValidByteCode stn v = Inr v \<and> isValidAbiJson v = Inr v) \<and>
   isValidByteCode stn (Str []) = Inr (Str []) \<and>
   isValidAbiJson (Str []) = Inr (Str []) \<and>
   Str [] \<noteq> Bool False \<and>
   (s \<noteq> [] \<longrightarrow>
      isValidByteCode stn (Str s) = Inr (Bool (even (length s))) \<and>
      isValidAbiJson (Str s) = Inr (Bool (hd s = CHR ''['' \<and> last s = CHR '']''))) \<and>
   ((\<exists>b. isValidByteCode stn (Str s) = Inr (Bool b)) = (s \<noteq> [])) \<and>
   ((\<exists>b. isValidAbiJson (Str s) = Inr (Bool b)) = (s \<noteq> []))"
proof -
  have falsy: "\<not> truthy v \<longrightarrow> isValidByteCode stn v = Inr v \<and> isValidAbiJson v = Inr v"
    by (simp add: isValidByteCode_falsy isValidAbiJson_falsy)
  have code: "s \<noteq> [] \<longrightarrow> isValidByteCode stn (Str s) = Inr (Bool (even (length s)))"
    by (simp add: even_iff_mod_2_eq_zero)
  have abi: "s \<noteq> [] \<longrightarrow>
      isValidAbiJson (Str s) = Inr (Bool (hd s = CHR ''['' \<and> last s = CHR '']''))"
    by (simp add: startsWith_char endsWith_char)
  have b1: "(\<exists>b. isValidByteCode stn (Str s) = Inr (Bool b)) = (s \<noteq> [])"
    by (cases "s = []") simp_all
  have b2: "(\<exists>b. isValidAbiJson (Str s) = Inr (Bool b)) = (s \<noteq> [])"
    by (cases "s = []") auto
  show ?thesis
    using falsy code abi b1 b2 by simp
qed

theorem isValidByteCode_isValidAbiJson_results_witness:
  "isValidByteCode (\<lambda>s. NaN) Undefined = Inr Undefined \<and>
   isValidAbiJson Null = Inr Null \<and>
   isValidByteCode (\<lambda>s. NaN) (Str ''6080'') = Inr (Bool True) \<and>
   isValidByteCode (\<lambda>s. NaN) (Str ''608'') = Inr (Bool False) \<and>
   isValidAbiJson (Str ''[1,2,3]'') = Inr (Bool True) \<and>
   isValidAbiJson (Str ''{1,2,3}'') = Inr (Bool False)"
  using isValidByteCode_isValidAbiJson_results [of Undefined "\<lambda>s. NaN" "''6080''"]
    isValidByteCode_isValidAbiJson_results [of Null "\<lambda>s. NaN" "''608''"]
    isValidByteCode_isValidAbiJson_results [of Null "\<lambda>s. NaN" "''[1,2,3]''"]
    isValidByteCode_isValidAbiJson_results [of Null "\<lambda>s. NaN" "''{1,2,3}''"]
  by simp

section \<open>Numbers: digits and their values\<close>

lemma below_ten: "d < 10 \<Longrightarrow> d \<in> {0, 1, 2, 3, 4, 5, 6, 7, 8, 9 :: nat}"
  by auto

lemma digit_char_is_digit: "d < 10 \<Longrightarrow> is_digit (digit_char d)"
  by (drule below_ten) (auto simp: is_digit_def digit_char_def)

lemma digit_val_digit_char: "d < 10 \<Longrightarrow> digit_val (digit_char d) = d"
  by (drule below_ten) (auto simp: digit_val_def digit_char_def)

lemma digit_val_less: "is_digit c \<Longrightarrow> digit_val c < 10"
  by (auto simp: is_digit_def digit_val_def)

lemma digit_not_whitespace: "is_digit c \<Longrightarrow> \<not> is_whitespace c"
  by (auto simp: is_digit_def is_whitespace_def)

lemma digit_not_sign: "is_digit c \<Longrightarrow> c \<noteq> CHR ''-'' \<and> c \<noteq> CHR ''+''"
  by (auto simp: is_digit_def)

lemma dec_digits_small: "n < 10 \<Longrightarrow> dec_digits n = [digit_char n]"
  by (simp add: dec_digits.simps)

lemma dec_digits_large: "\<not> n < 10 \<Longrightarrow> dec_digits n = dec_digits (n div 10) @ [digit_char (n mod 10)]"
  by (subst dec_digits.simps) simp

lemma dec_digits_nonempty: "dec_digits n \<noteq> []"
  by (cases "n < 10") (simp_all add: dec_digits_small dec_digits_large)

lemma dec_digits_all_digits: "list_all is_digit (dec_digits n)"
proof (induction n rule: dec_digits.induct)
  case (1 n)
  show ?case
  proof (cases "n < 10")
    case True
    then show ?thesis by (simp add: dec_digits_small digit_char_is_digit)
  next
    case False
    then show ?thesis using 1 by (simp add: dec_digits_large digit_char_is_digit)
  qed
qed

lemma nat_of_digits_snoc: "nat_of_digits (xs @ [c]) = 10 * nat_of_digits xs + digit_val c"
  by (simp add: nat_of_digits_def)

lemma nat_of_dec_digits: "nat_of_digits (dec_digits n) = n"
proof (induction n rule: dec_digits.induct)
  case (1 n)
  show ?case
  proof (cases "n < 10")
    case True
    then show ?thesis by (simp add: dec_digits_small nat_of_digits_def digit_val_digit_char)
  next
    case False
    then show ?thesis
      using 1 by (simp add: dec_digits_large nat_of_digits_snoc digit_val_digit_char)
  qed
qed

lemma nat_of_digits_bound: "list_all is_digit ds \<Longrightarrow> nat_of_digits ds < 10 ^ length ds"
proof (induction ds rule: rev_induct)
  case Nil
  then show ?case by (simp add: nat_of_digits_def)
next
  case (snoc c ds)
  then have "nat_of_digits ds < 10 ^ length ds" "digit_val c < 10"
    by (simp_all add: digit_val_less)
  then show ?case by (simp add: nat_of_digits_snoc)
qed

lemma nat_of_digits_zeros:
  "nat_of_digits (xs @ replicate j CHR ''0'') = nat_of_digits xs * 10 ^ j"
proof (induction j)
  case 0
  then show ?case by simp
next
  case (Suc j)
  have "xs @ replicate (Suc j) CHR ''0'' = (xs @ replicate j CHR ''0'') @ [CHR ''0'']"
    by (simp add: replicate_append_same)
  then have "nat_of_digits (xs @ replicate (Suc j) CHR ''0'') =
      10 * nat_of_digits (xs @ replicate j CHR ''0'') + digit_val CHR ''0''"
    by (simp only: nat_of_digits_snoc)
  also have "\<dots> = nat_of_digits xs * 10 ^ Suc j"
    using Suc by (simp add: digit_val_def)
  finally show ?case .
qed

lemma dec_digits_upper: "n < 10 ^ length (dec_digits n)"
  using nat_of_digits_bound [OF dec_digits_all_digits, of n] by (simp add: nat_of_dec_digits)

lemma dec_digits_lower: "0 < n \<Longrightarrow> 10 ^ (length (dec_digits n) - 1) \<le> n"
proof (induction n rule: dec_digits.induct)
  case (1 n)
  show ?case
  proof (cases "n < 10")
    case True
    then show ?thesis using 1(2) by (simp add: dec_digits_small)
  next
    case False
    then have pos: "0 < n div 10" by simp
    have ne: "length (dec_digits (n div 10)) \<noteq> 0" using dec_digits_nonempty by simp
    have "10 ^ (length (dec_digits (n div 10)) - 1) \<le> n div 10"
      using 1(1) False pos by simp
    then have "10 * 10 ^ (length (dec_digits (n div 10)) - 1) \<le> n" by simp
    moreover have "(10::nat) * 10 ^ (length (dec_digits (n div 10)) - 1) = 10 ^ length (dec_digits (n div 10))"
      using ne by (cases "length (dec_digits (n div 10))") simp_all
    ultimately show ?thesis using False by (simp add: dec_digits_large)
  qed
qed

lemma strip_zeros_le: "strip_zeros m \<le> m"
proof (induction m rule: strip_zeros.induct)
  case (1 m)
  show ?case
  proof (cases "m \<noteq> 0 \<and> m mod 10 = 0")
    case True
    then have "strip_zeros m = strip_zeros (m div 10)" by (subst strip_zeros.simps) simp
    moreover have "strip_zeros (m div 10) \<le> m div 10" using 1 True by simp
    moreover have "m div 10 \<le> m" by simp
    ultimately show ?thesis by linarith
  next
    case False
    then show ?thesis by (subst strip_zeros.simps) auto
  qed
qed

lemma strip_zeros_times: "s mod 10 \<noteq> 0 \<Longrightarrow> strip_zeros (s * 10 ^ j) = s"
proof (induction j)
  case 0
  then show ?case by (subst strip_zeros.simps) auto
next
  case (Suc j)
  then have "s * 10 ^ Suc j \<noteq> 0" by auto
  then have "strip_zeros (s * 10 ^ Suc j) = strip_zeros (s * 10 ^ Suc j div 10)"
    by (subst strip_zeros.simps) simp
  then show ?case using Suc by simp
qed

lemma length_dec_digits_times:
  "0 < s \<Longrightarrow> length (dec_digits (s * 10 ^ j)) = length (dec_digits s) + j"
proof (induction j)
  case 0
  then show ?case by simp
next
  case (Suc j)
  then have "\<not> s * 10 ^ Suc j < 10" by (simp add: not_less)
  then have "dec_digits (s * 10 ^ Suc j) =
      dec_digits (s * 10 ^ Suc j div 10) @ [digit_char (s * 10 ^ Suc j mod 10)]"
    by (rule dec_digits_large)
  then show ?case using Suc by simp
qed

section \<open>Numbers: printing and parsing back\<close>

text \<open>
  \<^verbatim>\<open>parseInt\<close> on a text that starts with a run of digits, followed by nothing or by a
  character that is not a digit: the number of that run.
\<close>

lemma parseInt10_digits:
  assumes "ds \<noteq> []" "list_all is_digit ds" "rest = [] \<or> \<not> is_digit (hd rest)"
  shows "parseInt10 (ds @ rest) = jsnum_of_nat False (nat_of_digits ds)"
proof -
  obtain c cs where ds: "ds = c # cs" using assms(1) by (cases ds) auto
  have c: "is_digit c" using assms(2) ds by simp
  have ws: "dropWhile is_whitespace (ds @ rest) = ds @ rest"
    using c ds by (simp add: digit_not_whitespace)
  have sign: "c \<noteq> CHR ''-''" "c \<noteq> CHR ''+''"
    using c digit_not_sign by auto
  have "takeWhile is_digit rest = []"
    using assms(3) by (cases rest) auto
  then have run: "takeWhile is_digit (ds @ rest) = ds"
    using assms(2) by (simp add: takeWhile_append2 list_all_iff)
  have "parseInt10 (ds @ rest) =
      (let z = takeWhile is_digit (ds @ rest)
       in if z = [] then NaN else jsnum_of_nat False (nat_of_digits z))"
    unfolding parseInt10_def ws using sign by (simp add: ds Let_def)
  then show ?thesis
    using assms(1) by (simp add: run Let_def)
qed

lemma jsnum_of_nat_small: "p < 10 \<Longrightarrow> jsnum_of_nat False p = Zero False \<or> (\<exists>t. jsnum_of_nat False p = Dec False t 1)"
  by (simp add: jsnum_of_nat_def dec_digits_small)

text \<open>An integer printed in full is read back as the same number.\<close>

lemma roundtrip_integer:
  assumes "0 < s" "s mod 10 \<noteq> 0" "int (length (dec_digits s)) \<le> n" "n \<le> 21"
  shows "parseInt10 (dec_toString s n) = Dec False s n"
proof -
  define j where "j = nat (n - int (length (dec_digits s)))"
  have str: "dec_toString s n = (dec_digits s @ replicate j CHR ''0'') @ []"
    using assms(3,4) by (simp add: dec_toString_def j_def Let_def)
  have "list_all is_digit (replicate j CHR ''0'')"
    by (simp add: list_all_iff is_digit_def)
  then have all: "list_all is_digit (dec_digits s @ replicate j CHR ''0'')"
    by (simp add: dec_digits_all_digits)
  have "parseInt10 (dec_toString s n) =
      jsnum_of_nat False (nat_of_digits (dec_digits s @ replicate j CHR ''0''))"
    unfolding str using all dec_digits_nonempty by (intro parseInt10_digits) simp_all
  also have "\<dots> = jsnum_of_nat False (s * 10 ^ j)"
    by (simp add: nat_of_digits_zeros nat_of_dec_digits)
  also have "\<dots> = Dec False s (int (length (dec_digits s)) + int j)"
    using assms(1,2) by (simp add: jsnum_of_nat_def strip_zeros_times length_dec_digits_times)
  also have "int (length (dec_digits s)) + int j = n"
    using assms(3) by (simp add: j_def)
  finally show ?thesis .
qed

text \<open>A number with a fraction is read back as its integer part, which is another number.\<close>

lemma roundtrip_fraction:
  assumes "0 < s" "0 < n" "n < int (length (dec_digits s))"
  shows "parseInt10 (dec_toString s n) \<noteq> Dec False s n"
proof -
  define ds where "ds = dec_digits s"
  define k where "k = length ds"
  have nk: "nat n < k" "0 < nat n" using assms(2,3) by (simp_all add: k_def ds_def)
  have le21: "n \<le> 21 \<or> 21 < n" by auto
  define p where "p = nat_of_digits (take (nat n) ds)"
  have digs: "list_all is_digit (take (nat n) ds)"
    using dec_digits_all_digits [of s] by (auto simp: ds_def list_all_iff dest: in_set_takeD)
  have "p < 10 ^ length (take (nat n) ds)"
    unfolding p_def using digs by (rule nat_of_digits_bound)
  then have "p < 10 ^ nat n" using nk by (simp add: k_def min_def)
  also have "(10::nat) ^ nat n \<le> 10 ^ (k - 1)"
    using nk by (intro power_increasing) auto
  also have "\<dots> \<le> s"
    using assms(1) dec_digits_lower by (simp add: k_def ds_def)
  finally have ps: "p < s" .
  have ne: "jsnum_of_nat False p \<noteq> Dec False s n"
  proof
    assume "jsnum_of_nat False p = Dec False s n"
    then have "strip_zeros p = s" by (auto simp: jsnum_of_nat_def split: if_splits)
    then show False using ps strip_zeros_le [of p] by simp
  qed
  show ?thesis
  proof (cases "n \<le> 21")
    case True
    have str: "dec_toString s n = take (nat n) ds @ (''.'' @ drop (nat n) ds)"
      using assms(2,3) True by (simp add: dec_toString_def Let_def ds_def)
    have "parseInt10 (dec_toString s n) = jsnum_of_nat False p"
      unfolding str p_def using digs nk
      by (intro parseInt10_digits) (auto simp: is_digit_def k_def)
    then show ?thesis using ne by simp
  next
    case False
    then have big: "21 < n" by simp
    have k1: "1 < k" using nk big by linarith
    have str: "dec_toString s n = take 1 ds @ (''.'' @ drop 1 ds @ ''e'' @ exponent_text (n - 1))"
      using assms(3) big k1 by (simp add: dec_toString_def Let_def ds_def k_def)
    have d1: "list_all is_digit (take 1 ds)"
      using dec_digits_all_digits [of s] by (auto simp: ds_def list_all_iff dest: in_set_takeD)
    have "take 1 ds \<noteq> []" using k1 by (auto simp: k_def)
    then have pi: "parseInt10 (dec_toString s n) = jsnum_of_nat False (nat_of_digits (take 1 ds))"
      unfolding str using d1 by (intro parseInt10_digits) (auto simp: is_digit_def)
    have "nat_of_digits (take 1 ds) < 10 ^ length (take 1 ds)"
      using d1 by (rule nat_of_digits_bound)
    then have "nat_of_digits (take 1 ds) < 10" using k1 by (simp add: k_def min_def)
    then show ?thesis
      using jsnum_of_nat_small [of "nat_of_digits (take 1 ds)"] pi big by auto
  qed
qed

text \<open>A number below one is read back as zero.\<close>

lemma roundtrip_small:
  assumes "- 6 < n" "n \<le> 0"
  shows "parseInt10 (dec_toString s n) = Zero False"
proof -
  have k: "\<not> int (length (dec_digits s)) \<le> n"
    using assms(2) dec_digits_nonempty [of s] by (cases "dec_digits s") auto
  have str: "dec_toString s n = ''0'' @ (''.'' @ replicate (nat (- n)) CHR ''0'' @ dec_digits s)"
    using assms k by (simp add: dec_toString_def Let_def)
  have "parseInt10 (dec_toString s n) = jsnum_of_nat False (nat_of_digits ''0'')"
    unfolding str by (intro parseInt10_digits) (auto simp: is_digit_def)
  then show ?thesis by (simp add: jsnum_of_nat_def nat_of_digits_def digit_val_def)
qed

text \<open>A number printed with an exponent is read back as its first digit.\<close>

lemma roundtrip_exponent:
  assumes "21 < n \<or> n \<le> - 6"
  shows "parseInt10 (dec_toString s n) \<noteq> Dec False s n"
proof -
  define ds where "ds = dec_digits s"
  have ne: "ds \<noteq> []" by (simp add: ds_def dec_digits_nonempty)
  have d1: "list_all is_digit (take 1 ds)"
    using dec_digits_all_digits [of s] by (auto simp: ds_def list_all_iff dest: in_set_takeD)
  have t1: "take 1 ds \<noteq> []" using ne by (cases ds) auto
  have "\<exists>rest. dec_toString s n = take 1 ds @ rest \<and> (rest = [] \<or> \<not> is_digit (hd rest))"
  proof (cases "21 < n \<and> int (length ds) \<le> n \<or> length ds = 1")
    case True
    then have one: "length ds = 1 \<or> (21 < n \<and> int (length ds) \<le> n)" by auto
    show ?thesis
    proof (cases "length ds = 1")
      case l1: True
      then have "dec_toString s n = take 1 ds @ (''e'' @ exponent_text (n - 1))"
        using assms by (auto simp: dec_toString_def Let_def ds_def)
      then show ?thesis by (auto simp: is_digit_def)
    next
      case False
      then have "dec_toString s n = take 1 ds @ (''.'' @ drop 1 ds @ ''e'' @ exponent_text (n - 1))"
        using assms by (auto simp: dec_toString_def Let_def ds_def)
      then show ?thesis by (auto simp: is_digit_def)
    qed
  next
    case False
    then have "dec_toString s n = take 1 ds @ (''.'' @ drop 1 ds @ ''e'' @ exponent_text (n - 1))"
      using assms by (auto simp: dec_toString_def Let_def ds_def)
    then show ?thesis by (auto simp: is_digit_def)
  qed
  then obtain rest where str: "dec_toString s n = take 1 ds @ rest"
    and rest: "rest = [] \<or> \<not> is_digit (hd rest)" by blast
  have pi: "parseInt10 (dec_toString s n) = jsnum_of_nat False (nat_of_digits (take 1 ds))"
    unfolding str using t1 d1 rest by (rule parseInt10_digits)
  have "nat_of_digits (take 1 ds) < 10 ^ length (take 1 ds)"
    using d1 by (rule nat_of_digits_bound)
  then have "nat_of_digits (take 1 ds) < 10" using ne by (cases ds) auto
  then show ?thesis
    using jsnum_of_nat_small [of "nat_of_digits (take 1 ds)"] pi assms by auto
qed

section \<open>Non-negative integers: the claims\<close>

lemma num_strict_eq_Dec: "num_strict_eq a (Dec neg s n) = (a = Dec neg s n)"
  by (cases a) auto

lemma parseInt10_zero: "parseInt10 ''0'' = Zero False"
  using parseInt10_digits [of "''0''" "[]"]
  by (simp add: is_digit_def jsnum_of_nat_def nat_of_digits_def digit_val_def)

text \<open>The forms that \<^verbatim>\<open>isPositiveIntegerOrZero\<close> accepts.\<close>

lemma isPositiveIntegerOrZero_Dec:
  assumes "0 < s" "s mod 10 \<noteq> 0"
  shows "isPositiveIntegerOrZero (Dec neg s n) =
     (\<not> neg \<and> int (length (dec_digits s)) \<le> n \<and> n \<le> 21)"
proof (cases neg)
  case True
  then show ?thesis by (simp add: isPositiveIntegerOrZero_def)
next
  case False
  have run: "isPositiveIntegerOrZero (Dec False s n) = (parseInt10 (dec_toString s n) = Dec False s n)"
    by (simp add: isPositiveIntegerOrZero_def num_strict_eq_Dec)
  consider (full) "int (length (dec_digits s)) \<le> n" "n \<le> 21"
    | (frac) "0 < n" "n < int (length (dec_digits s))"
    | (small) "- 6 < n" "n \<le> 0"
    | (expo) "21 < n \<or> n \<le> - 6" "\<not> (int (length (dec_digits s)) \<le> n \<and> n \<le> 21)"
    by linarith
  then show ?thesis
  proof cases
    case full
    then show ?thesis using False run assms roundtrip_integer by simp
  next
    case frac
    then show ?thesis using False run assms roundtrip_fraction by simp
  next
    case small
    then have "\<not> int (length (dec_digits s)) \<le> n"
      using dec_digits_nonempty [of s] by (cases "dec_digits s") auto
    then show ?thesis using False run small roundtrip_small by simp
  next
    case expo
    then show ?thesis using False run roundtrip_exponent by auto
  qed
qed

lemma isPositiveIntegerOrZero_form:
  "wf_num x \<Longrightarrow>
   isPositiveIntegerOrZero x =
     (case x of
        Zero neg \<Rightarrow> True
      | Dec neg s n \<Rightarrow> \<not> neg \<and> int (length (dec_digits s)) \<le> n \<and> n \<le> 21
      | _ \<Rightarrow> False)"
proof (cases x)
  case (Zero neg)
  then show ?thesis by (simp add: isPositiveIntegerOrZero_def parseInt10_zero)
next
  case (Dec neg s n)
  assume "wf_num x"
  then show ?thesis using Dec by (simp add: isPositiveIntegerOrZero_Dec)
qed (simp_all add: isPositiveIntegerOrZero_def)

text \<open>The value of a form, when the decimal point is at or after the last digit, and before it.\<close>

lemma value_integer:
  assumes "int (length (dec_digits s)) \<le> n"
  shows "num_value (Dec False s n) = Some (of_nat (s * 10 ^ nat (n - int (length (dec_digits s)))))"
  using assms by (simp add: power_int_def)

lemma value_fraction_not_integer:
  assumes "s mod 10 \<noteq> 0" "n < int (length (dec_digits s))"
  shows "of_int z \<noteq> (of_nat s :: rat) * 10 powi (n - int (length (dec_digits s)))"
proof
  define m where "m = nat (int (length (dec_digits s)) - n)"
  have m: "0 < m" using assms(2) by (simp add: m_def)
  assume "of_int z = (of_nat s :: rat) * 10 powi (n - int (length (dec_digits s)))"
  then have "(of_int z :: rat) = of_nat s / 10 ^ m"
    using assms(2) by (simp add: power_int_def m_def field_simps power_inverse)
  then have "(of_int z :: rat) * 10 ^ m = of_nat s" by simp
  then have "(of_int (z * 10 ^ m) :: rat) = of_int (int s)" by simp
  then have "z * 10 ^ m = int s" by (simp only: of_int_eq_iff)
  moreover have "(10::int) dvd 10 ^ m" using m by (cases m) simp_all
  ultimately have "10 dvd int s" by (metis dvd_mult)
  then have "10 dvd s" by presburger
  then show False using assms(1) by presburger
qed

lemma nonneg_integer_form:
  "wf_num x \<Longrightarrow>
   nonneg_integer x =
     (case x of
        Zero neg \<Rightarrow> True
      | Dec neg s n \<Rightarrow> \<not> neg \<and> int (length (dec_digits s)) \<le> n
      | _ \<Rightarrow> False)"
proof (cases x)
  case (Dec neg s n)
  assume "wf_num x"
  then have s: "0 < s" "s mod 10 \<noteq> 0" using Dec by simp_all
  show ?thesis
  proof (cases neg)
    case True
    have "(0::rat) < of_nat s * 10 powi (n - int (length (dec_digits s)))"
      using s(1) by (simp add: power_int_def)
    then show ?thesis using Dec True by (simp add: nonneg_integer_def)
  next
    case False
    show ?thesis
    proof (cases "int (length (dec_digits s)) \<le> n")
      case True
      then show ?thesis
        using Dec False value_integer [of s n] by (simp add: nonneg_integer_def del: num_value.simps)
    next
      case nk: False
      then have lt: "n < int (length (dec_digits s))" by simp
      have "of_int \<lfloor>(of_nat s :: rat) * 10 powi (n - int (length (dec_digits s)))\<rfloor>
          \<noteq> (of_nat s :: rat) * 10 powi (n - int (length (dec_digits s)))"
        by (rule value_fraction_not_integer [OF s(2) lt])
      then show ?thesis using Dec False nk by (simp add: nonneg_integer_def)
    qed
  qed
qed (simp_all add: nonneg_integer_def)

lemma below_1e21_integer:
  assumes "0 < s" "int (length (dec_digits s)) \<le> n"
  shows "below_1e21 (Dec False s n) = (n \<le> 21)"
proof -
  define k where "k = length (dec_digits s)"
  define j where "j = nat (n - int k)"
  have n: "n = int (k + j)" using assms(2) by (simp add: j_def k_def)
  have k: "0 < k" using dec_digits_nonempty [of s] by (simp add: k_def)
  have up: "s < 10 ^ k" using dec_digits_upper by (simp add: k_def)
  have lo: "10 ^ (k - 1) \<le> s" using assms(1) dec_digits_lower by (simp add: k_def)
  have "below_1e21 (Dec False s n) = ((of_nat (s * 10 ^ j) :: rat) < of_nat (10 ^ 21))"
    using value_integer [OF assms(2)] by (simp add: below_1e21_def j_def k_def del: num_value.simps)
  also have "\<dots> = (s * 10 ^ j < 10 ^ 21)" by (simp only: of_nat_less_iff)
  also have "\<dots> = (n \<le> 21)"
  proof
    assume a: "s * 10 ^ j < 10 ^ 21"
    have "(10::nat) ^ (k - 1 + j) = 10 ^ (k - 1) * 10 ^ j" by (simp add: power_add)
    also have "\<dots> \<le> s * 10 ^ j" using lo by simp
    finally have lt: "(10::nat) ^ (k - 1 + j) < 10 ^ 21" using a by simp
    have "k - 1 + j < 21" by (rule power_less_imp_less_exp [OF _ lt]) simp
    then show "n \<le> 21" using n k by simp
  next
    assume "n \<le> 21"
    then have kj: "k + j \<le> 21" using n by simp
    have "s * 10 ^ j < 10 ^ k * 10 ^ j" using up by simp
    also have "\<dots> = (10::nat) ^ (k + j)" by (simp add: power_add)
    also have "\<dots> \<le> 10 ^ 21" using kj by (intro power_increasing) simp_all
    finally show "s * 10 ^ j < 10 ^ 21" .
  qed
  finally show ?thesis .
qed

lemma nonneg_integer_below_form:
  "wf_num x \<Longrightarrow>
   (nonneg_integer x \<and> below_1e21 x) =
     (case x of
        Zero neg \<Rightarrow> True
      | Dec neg s n \<Rightarrow> \<not> neg \<and> int (length (dec_digits s)) \<le> n \<and> n \<le> 21
      | _ \<Rightarrow> False)"
proof (cases x)
  case (Zero neg)
  then show ?thesis by (simp add: nonneg_integer_def below_1e21_def)
next
  case (Dec neg s n)
  assume wf: "wf_num x"
  then have s: "0 < s" using Dec by simp
  show ?thesis
    using nonneg_integer_form [OF wf] Dec below_1e21_integer [OF s, of n] by auto
qed (simp_all add: nonneg_integer_def)

text \<open>
  Claim C5, as stated, has \<^verbatim>\<open>isPositiveIntegerOrZero\<close> true for every non-negative
  integer value. The number \<open>10 ^ 21\<close> is one; it prints as \<^verbatim>\<open>1e+21\<close>, which \<^verbatim>\<open>parseInt\<close>
  reads as 1, so the comparison fails.
\<close>

theorem isPositiveIntegerOrZero_1e21_counterexample:
  "wf_num (Dec False 1 22) \<and>
   num_value (Dec False 1 22) = Some (10 ^ 21) \<and>
   nonneg_integer (Dec False 1 22) \<and>
   num_toString (Dec False 1 22) = ''1e+21'' \<and>
   parseInt10 ''1e+21'' = Dec False 1 1 \<and>
   \<not> isPositiveIntegerOrZero (Dec False 1 22)"
proof (intro conjI)
  show "wf_num (Dec False 1 22)" by simp
  show "num_value (Dec False 1 22) = Some (10 ^ 21)"
    by (simp add: dec_digits_small power_int_def)
  show "nonneg_integer (Dec False 1 22)"
    by (simp add: nonneg_integer_form dec_digits_small)
  have "dec_digits 21 = ''21''"
    by (simp add: dec_digits_large dec_digits_small digit_char_def)
  then show "num_toString (Dec False 1 22) = ''1e+21''"
    by (simp add: dec_toString_def dec_digits_small exponent_text_def digit_char_def)
  have "strip_zeros 1 = 1" by (subst strip_zeros.simps) simp
  then show "parseInt10 ''1e+21'' = Dec False 1 1"
    using parseInt10_digits [of "''1''" "''e+21''"]
    by (simp add: is_digit_def nat_of_digits_def digit_val_def jsnum_of_nat_def dec_digits_small)
  show "\<not> isPositiveIntegerOrZero (Dec False 1 22)"
    by (simp add: isPositiveIntegerOrZero_Dec)
qed

text \<open>
  Claim C5, amended. \<^verbatim>\<open>isPositiveIntegerOrZero\<close> is false for NaN and for the
  infinities, and otherwise true exactly when the number is at least zero and is
  unchanged by printing it and parsing the text as a decimal integer; that is the case
  exactly for the non-negative integer values below \<open>10 ^ 21\<close>.
\<close>

theorem isPositiveIntegerOrZero_spec:
  "\<not> isPositiveIntegerOrZero NaN \<and>
   \<not> isPositiveIntegerOrZero (Inf neg) \<and>
   (isFinite x \<longrightarrow>
      isPositiveIntegerOrZero x =
        (num_ge_zero x \<and> num_strict_eq (parseInt10 (num_toString x)) x)) \<and>
   (wf_num x \<longrightarrow> isPositiveIntegerOrZero x = (nonneg_integer x \<and> below_1e21 x))"
proof (intro conjI impI)
  show "\<not> isPositiveIntegerOrZero NaN" "\<not> isPositiveIntegerOrZero (Inf neg)"
    by (simp_all add: isPositiveIntegerOrZero_def)
  show "isPositiveIntegerOrZero x =
      (num_ge_zero x \<and> num_strict_eq (parseInt10 (num_toString x)) x)" if "isFinite x"
    using that by (cases x) (simp_all add: isPositiveIntegerOrZero_def)
  show "isPositiveIntegerOrZero x = (nonneg_integer x \<and> below_1e21 x)" if "wf_num x"
    using that by (simp only: isPositiveIntegerOrZero_form nonneg_integer_below_form)
qed

theorem isPositiveIntegerOrZero_spec_witness:
  "isPositiveIntegerOrZero (Zero False) \<and>
   \<not> isPositiveIntegerOrZero (Dec False 35 1) \<and>
   \<not> isPositiveIntegerOrZero (Dec True 1 1) \<and>
   isPositiveIntegerOrZero (Dec False 7 1) \<and>
   \<not> isPositiveIntegerOrZero NaN"
proof -
  note value_rule =
    isPositiveIntegerOrZero_spec [THEN conjunct2, THEN conjunct2, THEN conjunct2, rule_format]
  have d: "dec_digits 35 = ''35''" "dec_digits 1 = ''1''" "dec_digits 7 = ''7''"
    by (simp_all add: dec_digits_large dec_digits_small digit_char_def)
  have zero: "nonneg_integer (Zero False) \<and> below_1e21 (Zero False)"
    by (simp add: nonneg_integer_below_form)
  have half: "\<not> (nonneg_integer (Dec False 35 1) \<and> below_1e21 (Dec False 35 1))"
    by (simp add: nonneg_integer_below_form d)
  have minus: "\<not> (nonneg_integer (Dec True 1 1) \<and> below_1e21 (Dec True 1 1))"
    by (simp add: nonneg_integer_below_form d)
  have seven: "nonneg_integer (Dec False 7 1) \<and> below_1e21 (Dec False 7 1)"
    by (simp add: nonneg_integer_below_form d)
  have "isPositiveIntegerOrZero (Zero False)"
    using value_rule [of "Zero False"] zero by simp
  moreover have "\<not> isPositiveIntegerOrZero (Dec False 35 1)"
    using value_rule [of "Dec False 35 1"] half by simp
  moreover have "\<not> isPositiveIntegerOrZero (Dec True 1 1)"
    using value_rule [of "Dec True 1 1"] minus by simp
  moreover have "isPositiveIntegerOrZero (Dec False 7 1)"
    using value_rule [of "Dec False 7 1"] seven by simp
  moreover have "\<not> isPositiveIntegerOrZero NaN"
    using isPositiveIntegerOrZero_spec [of False NaN] by simp
  ultimately show ?thesis by simp
qed

section \<open>Throwing: the claims\<close>

lemma isValidETHAddress_string_returns:
  "(\<exists>c. cs a = Inr c) \<Longrightarrow> \<exists>b. isValidETHAddress cs (Str a) = Inr b"
  by (auto simp: isValidETHAddress_def isChecksumAddress_def)

lemma isValidENSAddress_returns: "\<exists>b. isValidENSAddress normalise v = Inr b"
  by (simp add: isValidENSAddress_result)

lemma isValidENSName_returns: "\<exists>b. isValidENSName normalise v = Inr b"
  by (cases v) (auto split: sum.splits)

lemma isValidENSorEtherAddress_returns:
  "(\<exists>c. cs a = Inr c) \<Longrightarrow> \<exists>b. isValidENSorEtherAddress cs normalise (Str a) = Inr b"
  using isValidETHAddress_string_returns [of cs a] isValidENSAddress_returns [of normalise "Str a"]
  by (auto simp: isValidENSorEtherAddress_def split: bool.splits)

lemma isValidPrivKey_returns:
  assumes "\<forall>s. \<exists>k. from_hex s = Inr k" "\<forall>k. \<exists>b. isValidPrivate k = Inr b"
  shows "\<exists>b. isValidPrivKey from_hex isValidPrivate key = Inr b"
proof (cases key)
  case (KeyString s)
  obtain k where "from_hex (stripHexPrefix s) = Inr k" using assms(1) by blast
  then show ?thesis using KeyString assms(2) by (auto simp: Let_def)
next
  case (KeyBuffer b)
  then show ?thesis using assms(2) by auto
next
  case (KeyOther v)
  then show ?thesis by auto
qed

lemma isValidEthCall_throws:
  assumes "isValidEthCall v response schemaType apiName cb = Inl e"
  shows "\<not> isValidResult v response schemaType \<and>
     (cb = None \<or> (\<exists>f. cb = Some f \<and> f response = Inl e))"
  using assms by (cases cb) (auto simp: isValidEthCall_def split: if_splits)

text \<open>The results of the checks that no argument can make throw.\<close>

lemma isValidENSName_value:
  "isValidENSName normalise v =
     Inr (case v of
            Str s \<Rightarrow>
              6 < length s \<and>
              (case normalise v of Inl e \<Rightarrow> False | Inr n \<Rightarrow> n \<noteq> [] \<and> take 2 s \<noteq> ''0x'')
          | _ \<Rightarrow> False)"
  by (cases v) (auto split: sum.splits)

lemma isValidENSAddress_value:
  "isValidENSAddress normalise v =
     Inr (case normalise v of
            Inl e \<Rightarrow> False
          | Inr n \<Rightarrow> member_truthy validTLDs (substr n (lastIndexOf n CHR ''.'' + 1)))"
  by (simp add: isValidENSAddress_def Let_def split: sum.splits)

lemma isValidHex_value:
  "isValidHex v =
     (case v of
        Str s \<Rightarrow> list_all any_hex (if take 2 s = ''0x'' then drop 2 s else s)
      | _ \<Rightarrow> False)"
  by (cases v) (auto simp: re_upper_hex_star_def upper_hex_toUpperCase)

lemma isValidEncryptedPrivKey_value:
  "isValidEncryptedPrivKey v =
     (case v of Str s \<Rightarrow> length s = 128 \<or> length s = 132 | _ \<Rightarrow> False)"
  by (cases v) simp_all

text \<open>
  Claim C8, as stated, has every format check return for any input. The checks whose
  first step is a method of strings throw a TypeError on a truthy value that is not a
  string, \<^verbatim>\<open>isValidRawTx\<close> throws on null, and \<^verbatim>\<open>isPositiveIntegerOrZero\<close> throws on null,
  which passes the numeric guards as zero and has no method \<^verbatim>\<open>toString\<close>.
\<close>

theorem format_checks_throw_counterexample:
  "isValidETHAddress Inr (Num (Dec False 5 1)) = Inl TypeError \<and>
   isValidPath (Num (Dec False 5 1)) = Inl TypeError \<and>
   isValidAbiJson (Bool True) = Inl TypeError \<and>
   isValidRawTx Null = Inl TypeError \<and>
   isPositiveIntegerOrZero_value (\<lambda>s. NaN) Null = Inl TypeError"
  by (simp add: isValidETHAddress_def)

text \<open>
  Claim C8, amended. On an argument of the declared type every format check returns,
  as long as the collaborators other than the normaliser return: the address checks and
  the path, amount, byte code and ABI checks on a string, \<^verbatim>\<open>isPositiveIntegerOrZero\<close> on
  a number, the private key check on a string, a Buffer or anything else, the raw
  transaction check on an object that does not shadow \<^verbatim>\<open>hasOwnProperty\<close>. The
  name-service checks, \<^verbatim>\<open>isValidHex\<close> and \<^verbatim>\<open>isValidEncryptedPrivKey\<close> return a boolean on
  every value, the one the theorem gives; when the normaliser throws, both name-service
  checks return false. \<^verbatim>\<open>isValidBTCAddress\<close> is its collaborator's answer. On a value that
  is not a string \<^verbatim>\<open>isValidPath\<close> throws a TypeError, and so do \<^verbatim>\<open>isValidETHAddress\<close> and
  \<^verbatim>\<open>isValidAbiJson\<close> when the value is truthy; \<^verbatim>\<open>isPositiveIntegerOrZero\<close> throws a
  TypeError on null. The checker of \<^verbatim>\<open>isValidEthCall\<close> throws only when validation fails
  and either no fallback is given or the fallback itself throws.
\<close>

theorem format_checks_return:
  "((\<exists>c. cs a = Inr c) \<longrightarrow>
      (\<exists>b. isValidETHAddress cs (Str a) = Inr b) \<and>
      (\<exists>b. isValidENSorEtherAddress cs normalise (Str a) = Inr b)) \<and>
   isValidBTCAddress wav v = wav v ''BTC'' \<and>
   isValidENSName normalise v =
     Inr (case v of
            Str s \<Rightarrow>
              6 < length s \<and>
              (case normalise v of Inl e \<Rightarrow> False | Inr n \<Rightarrow> n \<noteq> [] \<and> take 2 s \<noteq> ''0x'')
          | _ \<Rightarrow> False) \<and>
   isValidENSAddress normalise v =
     Inr (case normalise v of
            Inl e \<Rightarrow> False
          | Inr n \<Rightarrow> member_truthy validTLDs (substr n (lastIndexOf n CHR ''.'' + 1))) \<and>
   (normalise v = Inl e \<longrightarrow>
      isValidENSName normalise v = Inr False \<and> isValidENSAddress normalise v = Inr False) \<and>
   isValidHex v =
     (case v of
        Str s \<Rightarrow> list_all any_hex (if take 2 s = ''0x'' then drop 2 s else s)
      | _ \<Rightarrow> False) \<and>
   isValidEncryptedPrivKey v =
     (case v of Str s \<Rightarrow> length s = 128 \<or> length s = 132 | _ \<Rightarrow> False) \<and>
   isPositiveIntegerOrZero_value stn (Num num) = Inr (isPositiveIntegerOrZero num) \<and>
   isPositiveIntegerOrZero_value stn Null = Inl TypeError \<and>
   ((\<forall>s. \<exists>k. from_hex s = Inr k) \<and> (\<forall>k. \<exists>b. isValidPrivate k = Inr b) \<longrightarrow>
      (\<exists>b. isValidPrivKey from_hex isValidPrivate key = Inr b)) \<and>
   (map_of ps ''hasOwnProperty'' = None \<longrightarrow> (\<exists>b. isValidRawTx (Obj ps) = Inr b)) \<and>
   (\<exists>b. isValidPath (Str a) = Inr b) \<and>
   (\<exists>b. isValidValue pf (Str a) = Inr b) \<and>
   (\<exists>b. isValidGasPrice pf (Str a) = Inr b) \<and>
   (\<exists>r. isValidByteCode stn (Str a) = Inr r) \<and>
   (\<exists>r. isValidAbiJson (Str a) = Inr r) \<and>
   (truthy w \<and> typeof w \<noteq> ''string'' \<longrightarrow>
      isValidETHAddress cs w = Inl TypeError \<and> isValidAbiJson w = Inl TypeError) \<and>
   (typeof w \<noteq> ''string'' \<longrightarrow> isValidPath w = Inl TypeError) \<and>
   (isValidEthCall vd response schemaType apiName cb = Inl e' \<longrightarrow>
      \<not> isValidResult vd response schemaType \<and>
      (cb = None \<or> (\<exists>f. cb = Some f \<and> f response = Inl e')))"
proof (intro conjI impI)
  assume c: "\<exists>c. cs a = Inr c"
  show "\<exists>b. isValidETHAddress cs (Str a) = Inr b"
    using c by (rule isValidETHAddress_string_returns)
  show "\<exists>b. isValidENSorEtherAddress cs normalise (Str a) = Inr b"
    using c by (rule isValidENSorEtherAddress_returns)
next
  show "isValidBTCAddress wav v = wav v ''BTC''" by (simp add: isValidBTCAddress_def)
next
  show "isValidENSName normalise v =
     Inr (case v of
            Str s \<Rightarrow>
              6 < length s \<and>
              (case normalise v of Inl e \<Rightarrow> False | Inr n \<Rightarrow> n \<noteq> [] \<and> take 2 s \<noteq> ''0x'')
          | _ \<Rightarrow> False)"
    by (rule isValidENSName_value)
next
  show "isValidENSAddress normalise v =
     Inr (case normalise v of
            Inl e \<Rightarrow> False
          | Inr n \<Rightarrow> member_truthy validTLDs (substr n (lastIndexOf n CHR ''.'' + 1)))"
    by (rule isValidENSAddress_value)
next
  assume thrown: "normalise v = Inl e"
  show "isValidENSName normalise v = Inr False"
    using thrown by (cases v) simp_all
  show "isValidENSAddress normalise v = Inr False"
    using thrown by (simp add: isValidENSAddress_def)
next
  show "isValidHex v =
     (case v of
        Str s \<Rightarrow> list_all any_hex (if take 2 s = ''0x'' then drop 2 s else s)
      | _ \<Rightarrow> False)"
    by (rule isValidHex_value)
next
  show "isValidEncryptedPrivKey v =
     (case v of Str s \<Rightarrow> length s = 128 \<or> length s = 132 | _ \<Rightarrow> False)"
    by (rule isValidEncryptedPrivKey_value)
next
  show "isPositiveIntegerOrZero_value stn (Num num) = Inr (isPositiveIntegerOrZero num)" by simp
next
  show "isPositiveIntegerOrZero_value stn Null = Inl TypeError" by simp
next
  assume "(\<forall>s. \<exists>k. from_hex s = Inr k) \<and> (\<forall>k. \<exists>b. isValidPrivate k = Inr b)"
  then show "\<exists>b. isValidPrivKey from_hex isValidPrivate key = Inr b"
    using isValidPrivKey_returns by blast
next
  assume "map_of ps ''hasOwnProperty'' = None"
  then show "\<exists>b. isValidRawTx (Obj ps) = Inr b"
    using isValidRawTx_plain by blast
next
  show "\<exists>b. isValidPath (Str a) = Inr b" by (auto simp: Let_def)
next
  show "\<exists>b. isValidValue pf (Str a) = Inr b" by (auto simp: isValidValue_def)
next
  show "\<exists>b. isValidGasPrice pf (Str a) = Inr b" by (auto simp: isValidGasPrice_def)
next
  show "\<exists>r. isValidByteCode stn (Str a) = Inr r" by auto
next
  show "\<exists>r. isValidAbiJson (Str a) = Inr r" by auto
next
  assume w: "truthy w \<and> typeof w \<noteq> ''string''"
  then show "isValidETHAddress cs w = Inl TypeError"
    by (cases w) (simp_all add: isValidETHAddress_def)
  show "isValidAbiJson w = Inl TypeError"
    using w by (cases w) simp_all
next
  assume "typeof w \<noteq> ''string''"
  then show "isValidPath w = Inl TypeError"
    by (cases w) simp_all
next
  assume thrown: "isValidEthCall vd response schemaType apiName cb = Inl e'"
  show "\<not> isValidResult vd response schemaType"
    using isValidEthCall_throws [OF thrown] by simp
  show "cb = None \<or> (\<exists>f. cb = Some f \<and> f response = Inl e')"
    using isValidEthCall_throws [OF thrown] by simp
qed

theorem format_checks_return_witness:
  "(\<exists>b. isValidETHAddress Inr (Str ''0x12'') = Inr b) \<and>
   (\<exists>b. isValidENSorEtherAddress Inr plain_normalise (Str ''0x12'') = Inr b) \<and>
   isValidENSName plain_normalise (Bool True) = Inr False \<and>
   isValidENSAddress plain_normalise (Bool True) = Inr False \<and>
   isPositiveIntegerOrZero_value (\<lambda>s. NaN) (Num (Zero False)) = Inr True \<and>
   (\<exists>b. isValidPrivKey (\<lambda>s. Inr []) (\<lambda>k. Inr False) (KeyString ''0x12'') = Inr b) \<and>
   (\<exists>b. isValidRawTx (Obj example_tx) = Inr b) \<and>
   isValidPath (Bool True) = Inl TypeError \<and>
   isValidEthCall refuse_all failed_response schema_RpcNode ''Get Balance'' None =
     Inl (Error ''execution error revert'') \<and>
   \<not> isValidResult refuse_all failed_response schema_RpcNode"
proof -
  have thrown: "isValidEthCall refuse_all failed_response schema_RpcNode ''Get Balance'' None =
      Inl (Error ''execution error revert'')"
    by (simp add: isValidEthCall_def isValidResult_def refuse_all_def failed_response_def
        formatErrors_def)
  have plain: "map_of example_tx ''hasOwnProperty'' = None"
    by (simp add: example_tx_def)
  have zero: "isPositiveIntegerOrZero (Zero False)"
    by (simp add: isPositiveIntegerOrZero_form)
  show ?thesis
    using format_checks_return [where cs = Inr and a = "''0x12''" and normalise = plain_normalise
        and wav = "\<lambda>a c. Inr False" and v = "Bool True" and e = "Thrown ''not a name''"
        and stn = "\<lambda>s. NaN" and num = "Zero False"
        and from_hex = "\<lambda>s. Inr []" and isValidPrivate = "\<lambda>k. Inr False"
        and key = "KeyString ''0x12''" and ps = example_tx and pf = "\<lambda>s. NaN"
        and w = "Bool True" and vd = refuse_all and response = failed_response
        and schemaType = schema_RpcNode and apiName = "''Get Balance''" and cb = None
        and e' = "Error ''execution error revert''"]
      thrown plain zero
    by (auto simp del: isValidRawTx.simps isValidPath.simps isValidPrivKey.simps)
qed

end
